theory Spec2Isabelle
  imports Complex_Main "HOL-Library.AList" "HOL-Library.Multiset"
begin

section \<open>Data model of the WhatsApp history store\<close>

text \<open>
  The embedding follows \<^verbatim>\<open>src/web/history-store.ts\<close>. The three SQLite tables are
  lists of rows in rowid order (oldest row first). Timestamps are epoch milliseconds
  (\<open>int\<close>); latitude and longitude are finite numbers (\<open>real\<close>); a nullable column or an
  optional parameter is an \<open>option\<close>. A \<open>string\<close> is the UTF-8 text that is bound to a
  statement for a JavaScript string, byte by byte: SQLite stores and compares these
  bytes. A well-formed JavaScript string and its text determine each other; a string
  with a lone surrogate is bound as the text of the string with U+FFFD in its place.
\<close>

datatype chat_kind = Direct | Group

text \<open>A row of table \<^verbatim>\<open>messages\<close> (type \<^verbatim>\<open>StoredMessage\<close>). Column \<open>is_from_me\<close> is an
  SQLite INTEGER: the row read back holds 1 or 0.\<close>

record stored_message =
  message_id :: string
  conversation_jid :: string
  sender_jid :: "string option"
  sender_e164 :: "string option"
  sender_name :: "string option"
  body :: string
  timestamp :: int
  is_from_me :: int
  reply_to_id :: "string option"
  media_path :: "string option"
  media_type :: "string option"
  location_lat :: "real option"
  location_lon :: "real option"
  raw_message :: string
  account_id :: string
  created_at :: int

text \<open>A row of table \<^verbatim>\<open>conversations\<close> (type \<^verbatim>\<open>ConversationMetadata\<close>).\<close>

record conversation_metadata =
  jid :: string
  chat_type :: chat_kind
  display_name :: "string option"
  last_message_at :: int
  conv_created_at :: int

text \<open>A row of table \<^verbatim>\<open>participants\<close>.\<close>

record participant =
  part_conversation_jid :: string
  participant_jid :: string
  participant_e164 :: "string option"
  joined_at :: int

record location =
  lat :: real
  lon :: real

text \<open>The parameter object of \<^verbatim>\<open>storeMessage\<close>; \<open>'raw\<close> is the type of the protocol
  client's message object.\<close>

record 'raw message_params =
  messageId :: string
  conversationJid :: string
  chatType :: chat_kind
  senderJid :: "string option"
  senderE164 :: "string option"
  senderName :: "string option"
  p_body :: string
  p_timestamp :: int
  isFromMe :: bool
  replyToId :: "string option"
  mediaPath :: "string option"
  mediaType :: "string option"
  p_location :: "location option"
  rawMessage :: 'raw
  accountId :: string
  displayName :: "string option"
  groupParticipants :: "string list option"

text \<open>Type \<^verbatim>\<open>ExportFilter\<close>; every field is optional.\<close>

record export_filter =
  f_from :: "string option"
  f_to :: "string option"
  f_conversationJid :: "string option"
  f_accountId :: "string option"
  f_limit :: "real option"

text \<open>An element of \<^verbatim>\<open>ExportedConversation.messages\<close>.\<close>

record exported_message =
  e_messageId :: string
  e_senderJid :: "string option"
  e_senderE164 :: "string option"
  e_senderName :: "string option"
  e_body :: string
  e_timestamp :: int
  e_isFromMe :: bool
  e_replyToId :: "string option"
  e_mediaPath :: "string option"
  e_mediaType :: "string option"
  e_location :: "location option"

record exported_conversation =
  ec_jid :: string
  ec_chatType :: chat_kind
  ec_displayName :: "string option"
  ec_messages :: "exported_message list"

record stats =
  totalMessages :: nat
  totalConversations :: nat
  oldestMessage :: "int option"
  newestMessage :: "int option"

text \<open>The contents of the SQLite file, and the store object: \<open>db\<close> tells whether the
  handle \<^verbatim>\<open>this.db\<close> is non-null, \<open>dbFile\<close> is what the file at \<^verbatim>\<open>dbPath\<close> holds.\<close>

record database =
  conversations :: "conversation_metadata list"
  messages :: "stored_message list"
  participants :: "participant list"

record history_store =
  db :: bool
  dbFile :: database

text \<open>The errors: the store's own \<^verbatim>\<open>Database not initialized\<close>, an error raised while a
  statement is prepared or run or while the raw message is serialised, and the
  \<^verbatim>\<open>ERR_OUT_OF_RANGE\<close> error of \<^verbatim>\<open>node:sqlite\<close> for an integer it cannot return as a
  number.\<close>

datatype error = NotInitialized | StorageFailure | OutOfRange

section \<open>Lifecycle\<close>

definition empty_database :: database where
  "empty_database = \<lparr>conversations = [], messages = [], participants = []\<rparr>"

text \<open>The constructor leaves the handle null; \<open>d\<close> is what the file already holds
  (\<open>empty_database\<close> when there is no file yet).\<close>

definition new_store :: "database \<Rightarrow> history_store" where
  "new_store d = \<lparr>db = False, dbFile = d\<rparr>"

text \<open>\<^verbatim>\<open>initialize\<close>: a no-op on an open store; otherwise the file is opened and the
  schema created with \<^verbatim>\<open>IF NOT EXISTS\<close>, which leaves existing rows alone.\<close>

definition initialize :: "history_store \<Rightarrow> history_store" where
  "initialize s = (if db s then s else s\<lparr>db := True\<rparr>)"

definition close :: "history_store \<Rightarrow> history_store" where
  "close s = (if db s then s\<lparr>db := False\<rparr> else s)"

section \<open>Ingestion\<close>

text \<open>\<^verbatim>\<open>INSERT INTO conversations ... ON CONFLICT(jid) DO UPDATE SET display_name =
  COALESCE(excluded.display_name, display_name), last_message_at = excluded.last_message_at\<close>:
  the row with the same \<open>jid\<close> is updated in place, a new row is appended.\<close>

fun upsertConv :: "conversation_metadata \<Rightarrow> conversation_metadata list \<Rightarrow> conversation_metadata list" where
  "upsertConv excluded [] = [excluded]"
| "upsertConv excluded (c # cs) =
     (if jid c = jid excluded
      then c\<lparr>display_name := (case display_name excluded of Some d \<Rightarrow> Some d | None \<Rightarrow> display_name c),
             last_message_at := last_message_at excluded\<rparr> # cs
      else c # upsertConv excluded cs)"

text \<open>\<^verbatim>\<open>INSERT OR REPLACE INTO messages\<close>: the row with the same primary key
  \<open>(conversation_jid, message_id)\<close> is deleted and the new row inserted.\<close>

definition same_key :: "stored_message \<Rightarrow> stored_message \<Rightarrow> bool" where
  "same_key m r \<longleftrightarrow> conversation_jid r = conversation_jid m \<and> message_id r = message_id m"

definition insertMsg :: "stored_message \<Rightarrow> stored_message list \<Rightarrow> stored_message list" where
  "insertMsg m ms = filter (\<lambda>r. \<not> same_key m r) ms @ [m]"

text \<open>\<^verbatim>\<open>INSERT OR IGNORE INTO participants\<close>: nothing happens when a row with the same
  primary key \<open>(conversation_jid, participant_jid)\<close> exists.\<close>

definition part_key :: "participant \<Rightarrow> string \<times> string" where
  "part_key r = (part_conversation_jid r, participant_jid r)"

definition insertParticipant :: "participant \<Rightarrow> participant list \<Rightarrow> participant list" where
  "insertParticipant p ps = (if part_key p \<in> set (map part_key ps) then ps else ps @ [p])"

definition conv_row :: "int \<Rightarrow> 'raw message_params \<Rightarrow> conversation_metadata" where
  "conv_row now params =
     \<lparr>jid = conversationJid params, chat_type = chatType params,
      display_name = displayName params, last_message_at = p_timestamp params,
      conv_created_at = now\<rparr>"

definition msg_row :: "int \<Rightarrow> string \<Rightarrow> 'raw message_params \<Rightarrow> stored_message" where
  "msg_row now raw params =
     \<lparr>message_id = messageId params, conversation_jid = conversationJid params,
      sender_jid = senderJid params, sender_e164 = senderE164 params,
      sender_name = senderName params, body = p_body params,
      timestamp = p_timestamp params,
      is_from_me = (if isFromMe params then 1 else 0),
      reply_to_id = replyToId params, media_path = mediaPath params,
      media_type = mediaType params,
      location_lat = map_option lat (p_location params),
      location_lon = map_option lon (p_location params),
      raw_message = raw, account_id = accountId params, created_at = now\<rparr>"

definition part_row :: "int \<Rightarrow> string \<Rightarrow> string \<Rightarrow> participant" where
  "part_row now cj pj =
     \<lparr>part_conversation_jid = cj, participant_jid = pj, participant_e164 = None, joined_at = now\<rparr>"

text \<open>
  \<^verbatim>\<open>storeMessage\<close>. \<open>now\<close> is the value of \<^verbatim>\<open>Date.now()\<close>; \<open>stringify\<close> is
  \<^verbatim>\<open>JSON.stringify\<close> on the raw message, \<open>None\<close> when it throws. The three statements run
  one after the other without a transaction, and the raw message is serialised while the
  arguments of the second statement are evaluated: when that throws, the conversation
  upsert has happened and the error is re-thrown. The result is the outcome together
  with the store after the call. Failures of the database engine itself (input/output,
  a full disk) are outside the model.
\<close>

definition storeMessage ::
  "('raw \<Rightarrow> string option) \<Rightarrow> int \<Rightarrow> 'raw message_params \<Rightarrow> history_store
     \<Rightarrow> (error + unit) \<times> history_store" where
  "storeMessage stringify now params s =
     (if \<not> db s then (Inl NotInitialized, s)
      else
        let d1 = (dbFile s)\<lparr>conversations := upsertConv (conv_row now params) (conversations (dbFile s))\<rparr>
        in case stringify (rawMessage params) of
             None \<Rightarrow> (Inl StorageFailure, s\<lparr>dbFile := d1\<rparr>)
           | Some raw \<Rightarrow>
               let d2 = d1\<lparr>messages := insertMsg (msg_row now raw params) (messages d1)\<rparr>;
                   d3 = (if chatType params = Group
                         then (case groupParticipants params of
                                 None \<Rightarrow> d2
                               | Some ps \<Rightarrow>
                                   d2\<lparr>participants :=
                                        fold (\<lambda>pj. insertParticipant (part_row now (conversationJid params) pj))
                                          ps (participants d2)\<rparr>)
                         else d2)
               in (Inr (), s\<lparr>dbFile := d3\<rparr>))"

section \<open>Reading values back\<close>

text \<open>
  What \<^verbatim>\<open>node:sqlite\<close> returns for a stored value. A TEXT value is handed over as a
  NUL-terminated C string, so it comes back cut before its first NUL byte. A number is
  bound as a double; in a column of INTEGER affinity an integral value strictly between
  \<open>-2^63\<close> and \<open>2^63\<close> is stored as an integer and every other value as a float. An
  integer is returned as a number when its magnitude is at most \<open>2^53 - 1\<close>, and the
  read throws otherwise; a float is returned as it is. NULL comes back as null.
\<close>

definition read_text :: "string \<Rightarrow> string" where
  "read_text t = takeWhile (\<lambda>c. c \<noteq> CHR 0x00) t"

definition read_integer :: "int \<Rightarrow> error + int" where
  "read_integer v =
     (if - (2 ^ 53) < v \<and> v < 2 ^ 53 then Inr v
      else if - (2 ^ 63) < v \<and> v < 2 ^ 63 then Inl OutOfRange
      else Inr v)"

definition read_integer_opt :: "int option \<Rightarrow> error + int option" where
  "read_integer_opt v =
     (case v of
        None \<Rightarrow> Inr None
      | Some x \<Rightarrow> (case read_integer x of Inl e \<Rightarrow> Inl e | Inr y \<Rightarrow> Inr (Some y)))"

text \<open>One row of \<^verbatim>\<open>SELECT * FROM messages\<close> as an object, and \<^verbatim>\<open>stmt.all\<close> over the
  selected rows: the first value that cannot be returned makes the whole call throw.\<close>

definition readRow :: "stored_message \<Rightarrow> error + stored_message" where
  "readRow r =
     (case read_integer (timestamp r) of
        Inl e \<Rightarrow> Inl e
      | Inr ts \<Rightarrow>
          (case read_integer (is_from_me r) of
             Inl e \<Rightarrow> Inl e
           | Inr fm \<Rightarrow>
               (case read_integer (created_at r) of
                  Inl e \<Rightarrow> Inl e
                | Inr ca \<Rightarrow>
                    Inr \<lparr>message_id = read_text (message_id r),
                         conversation_jid = read_text (conversation_jid r),
                         sender_jid = map_option read_text (sender_jid r),
                         sender_e164 = map_option read_text (sender_e164 r),
                         sender_name = map_option read_text (sender_name r),
                         body = read_text (body r),
                         timestamp = ts,
                         is_from_me = fm,
                         reply_to_id = map_option read_text (reply_to_id r),
                         media_path = map_option read_text (media_path r),
                         media_type = map_option read_text (media_type r),
                         location_lat = location_lat r,
                         location_lon = location_lon r,
                         raw_message = read_text (raw_message r),
                         account_id = read_text (account_id r),
                         created_at = ca\<rparr>)))"

fun stmt_all :: "stored_message list \<Rightarrow> error + stored_message list" where
  "stmt_all [] = Inr []"
| "stmt_all (r # rs) =
     (case readRow r of
        Inl e \<Rightarrow> Inl e
      | Inr r' \<Rightarrow> (case stmt_all rs of Inl e \<Rightarrow> Inl e | Inr rs' \<Rightarrow> Inr (r' # rs')))"

section \<open>Queries\<close>

text \<open>
  \<^verbatim>\<open>queryMessages\<close>. A filter field takes part only when it is truthy: a string when it is
  present and not empty, the limit when it is present and not 0 (\<^verbatim>\<open>NaN\<close>, which is
  falsy too, is not a value of the model). \<open>getTime\<close> is \<^verbatim>\<open>new Date(str).getTime()\<close>,
  \<open>None\<close> for \<^verbatim>\<open>NaN\<close>; SQLite binds \<^verbatim>\<open>NaN\<close> as NULL and a comparison with NULL selects
  no row. The limit is written into the statement as the decimal text of the number:
  SQLite accepts it when it is an integer strictly between \<open>-2^63\<close> and \<open>2^63\<close> and
  raises \<^verbatim>\<open>datatype mismatch\<close> otherwise (a fraction, or a number of larger magnitude,
  which reaches it as a float); a negative \<^verbatim>\<open>LIMIT\<close> is no limit. From \<open>2^53\<close> on the
  decimal text can differ from the number in its last digits; a table has fewer rows
  than either. \<^verbatim>\<open>ORDER BY timestamp ASC\<close> is the stable sort of the rows in rowid order.
  The rows selected are then read back.
\<close>

definition from_cond :: "(string \<Rightarrow> int option) \<Rightarrow> export_filter \<Rightarrow> stored_message \<Rightarrow> bool" where
  "from_cond getTime flt r =
     (case f_from flt of
        None \<Rightarrow> True
      | Some str \<Rightarrow> if str = [] then True
                    else (case getTime str of None \<Rightarrow> False | Some fromMs \<Rightarrow> timestamp r \<ge> fromMs))"

definition to_cond :: "(string \<Rightarrow> int option) \<Rightarrow> export_filter \<Rightarrow> stored_message \<Rightarrow> bool" where
  "to_cond getTime flt r =
     (case f_to flt of
        None \<Rightarrow> True
      | Some str \<Rightarrow> if str = [] then True
                    else (case getTime str of None \<Rightarrow> False | Some toMs \<Rightarrow> timestamp r \<le> toMs))"

definition conv_cond :: "export_filter \<Rightarrow> stored_message \<Rightarrow> bool" where
  "conv_cond flt r =
     (case f_conversationJid flt of
        None \<Rightarrow> True
      | Some j \<Rightarrow> if j = [] then True else conversation_jid r = j)"

definition account_cond :: "export_filter \<Rightarrow> stored_message \<Rightarrow> bool" where
  "account_cond flt r =
     (case f_accountId flt of
        None \<Rightarrow> True
      | Some a \<Rightarrow> if a = [] then True else account_id r = a)"

definition whereClause :: "(string \<Rightarrow> int option) \<Rightarrow> export_filter \<Rightarrow> stored_message \<Rightarrow> bool" where
  "whereClause getTime flt r \<longleftrightarrow>
     from_cond getTime flt r \<and> to_cond getTime flt r \<and> conv_cond flt r \<and> account_cond flt r"

definition limitClause :: "export_filter \<Rightarrow> stored_message list \<Rightarrow> error + stored_message list" where
  "limitClause flt rows =
     (case f_limit flt of
        None \<Rightarrow> Inr rows
      | Some n \<Rightarrow>
          if n = 0 then Inr rows
          else if of_int \<lfloor>n\<rfloor> \<noteq> n \<or> n \<le> - (2 ^ 63) \<or> 2 ^ 63 \<le> n then Inl StorageFailure
          else if n < 0 then Inr rows
          else Inr (take (nat \<lfloor>n\<rfloor>) rows))"

definition queryMessages ::
  "(string \<Rightarrow> int option) \<Rightarrow> export_filter \<Rightarrow> history_store \<Rightarrow> error + stored_message list" where
  "queryMessages getTime flt s =
     (if \<not> db s then Inl NotInitialized
      else case limitClause flt
                  (sort_key timestamp (filter (whereClause getTime flt) (messages (dbFile s)))) of
             Inl e \<Rightarrow> Inl e
           | Inr rows \<Rightarrow> stmt_all rows)"

text \<open>The filter of a call without argument: \<^verbatim>\<open>{}\<close>.\<close>

definition no_filter :: export_filter where
  "no_filter = \<lparr>f_from = None, f_to = None, f_conversationJid = None, f_accountId = None, f_limit = None\<rparr>"

section \<open>Grouped export\<close>

definition to_exported :: "stored_message \<Rightarrow> exported_message" where
  "to_exported msg =
     \<lparr>e_messageId = message_id msg, e_senderJid = sender_jid msg,
      e_senderE164 = sender_e164 msg, e_senderName = sender_name msg,
      e_body = body msg, e_timestamp = timestamp msg,
      e_isFromMe = (is_from_me msg \<noteq> 0),
      e_replyToId = reply_to_id msg, e_mediaPath = media_path msg,
      e_mediaType = media_type msg,
      e_location = (case (location_lat msg, location_lon msg) of
                      (Some la, Some lo) \<Rightarrow> Some \<lparr>lat = la, lon = lo\<rparr>
                    | _ \<Rightarrow> None)\<rparr>"

text \<open>\<^verbatim>\<open>SELECT chat_type, display_name FROM conversations WHERE jid = ?\<close> with \<^verbatim>\<open>get\<close>:
  the first row whose stored jid is the key, if any, its display name read back, and
  the new group built from it.\<close>

definition new_conv :: "conversation_metadata list \<Rightarrow> string \<Rightarrow> exported_conversation" where
  "new_conv convs j =
     (let convData = find (\<lambda>c. jid c = j) convs
      in \<lparr>ec_jid = j,
          ec_chatType = (case convData of None \<Rightarrow> Direct | Some c \<Rightarrow> chat_type c),
          ec_displayName = (case convData of
                              None \<Rightarrow> None
                            | Some c \<Rightarrow> map_option read_text (display_name c)),
          ec_messages = []\<rparr>)"

text \<open>The loop over the query result. \<^verbatim>\<open>conversationMap\<close> is a JavaScript \<^verbatim>\<open>Map\<close>, which
  keeps its keys in insertion order: an association list, a new key appended.\<close>

fun export_loop ::
  "conversation_metadata list \<Rightarrow> stored_message list \<Rightarrow> (string \<times> exported_conversation) list
     \<Rightarrow> (string \<times> exported_conversation) list" where
  "export_loop convs [] conversationMap = conversationMap"
| "export_loop convs (msg # msgs) conversationMap =
     (let conv = (case map_of conversationMap (conversation_jid msg) of
                    Some c \<Rightarrow> c
                  | None \<Rightarrow> new_conv convs (conversation_jid msg));
          conv' = conv\<lparr>ec_messages := ec_messages conv @ [to_exported msg]\<rparr>
      in export_loop convs msgs (AList.update (conversation_jid msg) conv' conversationMap))"

definition exportMessages ::
  "(string \<Rightarrow> int option) \<Rightarrow> export_filter \<Rightarrow> history_store \<Rightarrow> error + exported_conversation list" where
  "exportMessages getTime flt s =
     (if \<not> db s then Inl NotInitialized
      else case queryMessages getTime flt s of
             Inl e \<Rightarrow> Inl e
           | Inr msgs \<Rightarrow> Inr (map snd (export_loop (conversations (dbFile s)) msgs [])))"

section \<open>Statistics\<close>

text \<open>\<^verbatim>\<open>SELECT MIN(timestamp)\<close> and \<^verbatim>\<open>SELECT MAX(timestamp)\<close>: NULL on an empty table.
  Both values are read back, the oldest first. The two counts are far below \<open>2^53\<close>.\<close>

fun sql_min :: "int list \<Rightarrow> int option" where
  "sql_min [] = None"
| "sql_min (x # xs) = (case sql_min xs of None \<Rightarrow> Some x | Some m \<Rightarrow> Some (min x m))"

fun sql_max :: "int list \<Rightarrow> int option" where
  "sql_max [] = None"
| "sql_max (x # xs) = (case sql_max xs of None \<Rightarrow> Some x | Some m \<Rightarrow> Some (max x m))"

definition getStats :: "history_store \<Rightarrow> error + stats" where
  "getStats s =
     (if \<not> db s then Inl NotInitialized
      else case read_integer_opt (sql_min (map timestamp (messages (dbFile s)))) of
             Inl e \<Rightarrow> Inl e
           | Inr oldest \<Rightarrow>
               (case read_integer_opt (sql_max (map timestamp (messages (dbFile s)))) of
                  Inl e \<Rightarrow> Inl e
                | Inr newest \<Rightarrow>
                    Inr \<lparr>totalMessages = length (messages (dbFile s)),
                         totalConversations = length (conversations (dbFile s)),
                         oldestMessage = oldest,
                         newestMessage = newest\<rparr>))"

section \<open>Sequences of operations\<close>

text \<open>A caller's use of one store object: a sequence of lifecycle calls and ingestions,
  run from left to right. An ingestion that throws leaves the store as \<open>storeMessage\<close>
  left it, and the caller goes on.\<close>

datatype 'raw operation = Initialize | Close | StoreMessage int "'raw message_params"

fun apply_operation :: "('raw \<Rightarrow> string option) \<Rightarrow> 'raw operation \<Rightarrow> history_store \<Rightarrow> history_store" where
  "apply_operation stringify Initialize s = initialize s"
| "apply_operation stringify Close s = close s"
| "apply_operation stringify (StoreMessage now params) s = snd (storeMessage stringify now params s)"

definition run :: "('raw \<Rightarrow> string option) \<Rightarrow> 'raw operation list \<Rightarrow> history_store \<Rightarrow> history_store" where
  "run stringify ops s = fold (apply_operation stringify) ops s"

section \<open>Notions used in the statements\<close>

text \<open>Every message row has a conversation row with its \<open>conversation_jid\<close>.\<close>

definition orphan_free :: "database \<Rightarrow> bool" where
  "orphan_free d \<longleftrightarrow> (\<forall>m \<in> set (messages d). conversation_jid m \<in> set (map jid (conversations d)))"

text \<open>Values that are read back as they are stored: a text without a NUL byte, an
  integer of magnitude at most \<open>2^53 - 1\<close>; and a message row that holds only such
  values.\<close>

definition nul_free :: "string \<Rightarrow> bool" where
  "nul_free t \<longleftrightarrow> CHR 0x00 \<notin> set t"

definition nul_free_opt :: "string option \<Rightarrow> bool" where
  "nul_free_opt v = (case v of None \<Rightarrow> True | Some t \<Rightarrow> nul_free t)"

definition safe_integer :: "int \<Rightarrow> bool" where
  "safe_integer v \<longleftrightarrow> - (2 ^ 53) < v \<and> v < 2 ^ 53"

definition readable_row :: "stored_message \<Rightarrow> bool" where
  "readable_row r \<longleftrightarrow>
     safe_integer (timestamp r) \<and> safe_integer (is_from_me r) \<and> safe_integer (created_at r) \<and>
     nul_free (message_id r) \<and> nul_free (conversation_jid r) \<and>
     nul_free_opt (sender_jid r) \<and> nul_free_opt (sender_e164 r) \<and> nul_free_opt (sender_name r) \<and>
     nul_free (body r) \<and> nul_free_opt (reply_to_id r) \<and> nul_free_opt (media_path r) \<and>
     nul_free_opt (media_type r) \<and> nul_free (raw_message r) \<and> nul_free (account_id r)"

text \<open>The elements of a list in the order of their first occurrence.\<close>

definition first_seen :: "'a list \<Rightarrow> 'a list" where
  "first_seen xs = rev (remdups (rev xs))"

text \<open>The group of conversation \<open>j\<close> over a list of rows: the metadata looked up in the
  conversation table, and the rows of \<open>j\<close> in the order of the list.\<close>

definition group_of :: "conversation_metadata list \<Rightarrow> stored_message list \<Rightarrow> string \<Rightarrow> exported_conversation" where
  "group_of convs rows j =
     (new_conv convs j)\<lparr>ec_messages := map to_exported (filter (\<lambda>r. conversation_jid r = j) rows)\<rparr>"

definition groups_of ::
  "conversation_metadata list \<Rightarrow> stored_message list \<Rightarrow> (string \<times> exported_conversation) list" where
  "groups_of convs rows = map (\<lambda>j. (j, group_of convs rows j)) (first_seen (map conversation_jid rows))"

text \<open>The display name kept by one more call: the incoming one unless it is null.\<close>

definition coalesce_name :: "int \<times> 'raw message_params \<Rightarrow> string option \<Rightarrow> string option" where
  "coalesce_name call existing = (case displayName (snd call) of Some d \<Rightarrow> Some d | None \<Rightarrow> existing)"

text \<open>The display name of the conversation row with jid \<open>j\<close>, null without such a row.\<close>

definition name_of :: "string \<Rightarrow> conversation_metadata list \<Rightarrow> string option" where
  "name_of j cs = (case find (\<lambda>c. jid c = j) cs of None \<Rightarrow> None | Some c \<Rightarrow> display_name c)"

text \<open>A sequence of ingestions, each with its ingestion time, as operations.\<close>

definition store_calls :: "(int \<times> 'raw message_params) list \<Rightarrow> 'raw operation list" where
  "store_calls calls = map (\<lambda>(now, p). StoreMessage now p) calls"

section \<open>Concrete inputs\<close>

text \<open>A freshly created and initialised store, and a few messages, used to evaluate the
  operations on concrete inputs. The raw message is a string here and the serialiser
  \<open>Some\<close> returns it as it is.\<close>

definition fresh :: history_store where
  "fresh = initialize (new_store empty_database)"

definition m1 :: "string message_params" where
  "m1 = \<lparr>messageId = ''msg-1'', conversationJid = ''a@s.whatsapp.net'', chatType = Direct,
     senderJid = Some ''a@s.whatsapp.net'', senderE164 = Some ''+1234567890'', senderName = None,
     p_body = ''Hello'', p_timestamp = 1000, isFromMe = False,
     replyToId = None, mediaPath = None, mediaType = None, p_location = None,
     rawMessage = ''{}'', accountId = ''default'', displayName = Some ''Ann'',
     groupParticipants = None\<rparr>"

definition m2 :: "string message_params" where
  "m2 = m1\<lparr>p_body := ''Bye'', p_timestamp := 900, isFromMe := True, displayName := None\<rparr>"

definition m3 :: "string message_params" where
  "m3 = \<lparr>messageId = ''msg-1'', conversationJid = ''g@g.us'', chatType = Group,
     senderJid = Some ''x@s.whatsapp.net'', senderE164 = None, senderName = Some ''Xi'',
     p_body = ''Hi all'', p_timestamp = 500, isFromMe = True,
     replyToId = None, mediaPath = None, mediaType = None,
     p_location = Some \<lparr>lat = 52, lon = 13\<rparr>,
     rawMessage = ''{}'', accountId = ''work'', displayName = Some ''Team'',
     groupParticipants = Some [''x@s.whatsapp.net'', ''y@s.whatsapp.net'']\<rparr>"

definition m4 :: "string message_params" where
  "m4 = m1\<lparr>messageId := ''msg-2'', p_body := ''Later'', p_timestamp := 2000, displayName := None\<rparr>"

text \<open>The store after ingesting \<open>m1\<close>, then \<open>m3\<close>, then \<open>m4\<close>.\<close>

definition store1 :: history_store where
  "store1 = snd (storeMessage Some 5 m1 fresh)"

definition store2 :: history_store where
  "store2 = snd (storeMessage Some 6 m3 store1)"

definition store3 :: history_store where
  "store3 = snd (storeMessage Some 7 m4 store2)"

text \<open>A date parser that knows two dates.\<close>

definition exTime :: "string \<Rightarrow> int option" where
  "exTime str =
     (if str = ''1970-01-01T00:00:00.600Z'' then Some 600
      else if str = ''1970-01-01T00:00:01.500Z'' then Some 1500
      else None)"

definition from600_limit1 :: export_filter where
  "from600_limit1 = no_filter\<lparr>f_from := Some ''1970-01-01T00:00:00.600Z'', f_limit := Some 1\<rparr>"

definition limit0 :: export_filter where
  "limit0 = no_filter\<lparr>f_limit := Some 0\<rparr>"

text \<open>The limit \<open>2^63\<close>; a message whose body holds a NUL byte; a message whose
  timestamp is \<open>2^53\<close>.\<close>

definition limit_2_63 :: export_filter where
  "limit_2_63 = no_filter\<lparr>f_limit := Some 9223372036854775808\<rparr>"

definition nul_message :: "string message_params" where
  "nul_message = m1\<lparr>p_body := [CHR ''a'', CHR 0x00, CHR ''b'']\<rparr>"

definition big_message :: "string message_params" where
  "big_message = m1\<lparr>p_timestamp := 9007199254740992\<rparr>"

text \<open>The stores after ingesting one of them into the fresh store.\<close>

definition nul_store :: history_store where
  "nul_store = snd (storeMessage Some 5 nul_message fresh)"

definition big_store :: history_store where
  "big_store = snd (storeMessage Some 5 big_message fresh)"

text \<open>A serialiser that throws on every raw message.\<close>

definition no_json :: "string \<Rightarrow> string option" where
  "no_json raw = None"

text \<open>A later message of the group, with one known and one new participant.\<close>

definition m5 :: "string message_params" where
  "m5 = m3\<lparr>messageId := ''msg-9'', p_timestamp := 700,
     groupParticipants := Some [''y@s.whatsapp.net'', ''z@s.whatsapp.net'']\<rparr>"

definition store4 :: history_store where
  "store4 = snd (storeMessage Some 8 m5 store3)"

section \<open>Effect of one ingestion on each table\<close>

lemma db_storeMessage: "db (snd (storeMessage st now p s)) = db s"
  by (simp add: storeMessage_def Let_def split: option.splits)

lemma conversations_storeMessage:
  "conversations (dbFile (snd (storeMessage st now p s))) =
     (if db s then upsertConv (conv_row now p) (conversations (dbFile s))
      else conversations (dbFile s))"
  by (simp add: storeMessage_def Let_def split: option.splits)

lemma messages_storeMessage:
  "messages (dbFile (snd (storeMessage st now p s))) =
     (if db s then (case st (rawMessage p) of
                      None \<Rightarrow> messages (dbFile s)
                    | Some raw \<Rightarrow> insertMsg (msg_row now raw p) (messages (dbFile s)))
      else messages (dbFile s))"
  by (simp add: storeMessage_def Let_def split: option.splits)

lemma storeMessage_ok_iff:
  "fst (storeMessage st now p s) = Inr () \<longleftrightarrow> db s \<and> st (rawMessage p) \<noteq> None"
  by (auto simp add: storeMessage_def Let_def split: option.splits)

lemma filter_insertMsg: "filter (same_key m) (insertMsg m ms) = [m]"
  by (simp add: insertMsg_def same_key_def)


section \<open>The concrete stores, evaluated\<close>

lemma store1_eval:
  "store1 = \<lparr>db = True, dbFile = \<lparr>conversations = [conv_row 5 m1],
      messages = [msg_row 5 ''{}'' m1], participants = []\<rparr>\<rparr>"
  by (simp add: store1_def storeMessage_def fresh_def initialize_def new_store_def
      empty_database_def Let_def insertMsg_def m1_def)

lemma store2_eval:
  "store2 = \<lparr>db = True, dbFile = \<lparr>conversations = [conv_row 5 m1, conv_row 6 m3],
      messages = [msg_row 5 ''{}'' m1, msg_row 6 ''{}'' m3],
      participants = [part_row 6 ''g@g.us'' ''x@s.whatsapp.net'',
                      part_row 6 ''g@g.us'' ''y@s.whatsapp.net'']\<rparr>\<rparr>"
  by (simp add: store2_def store1_eval storeMessage_def Let_def insertMsg_def insertParticipant_def
      part_key_def part_row_def same_key_def m1_def m3_def conv_row_def msg_row_def)

lemma store3_eval:
  "store3 = \<lparr>db = True, dbFile = \<lparr>conversations = [(conv_row 5 m1)\<lparr>last_message_at := 2000\<rparr>, conv_row 6 m3],
      messages = [msg_row 5 ''{}'' m1, msg_row 6 ''{}'' m3, msg_row 7 ''{}'' m4],
      participants = [part_row 6 ''g@g.us'' ''x@s.whatsapp.net'',
                      part_row 6 ''g@g.us'' ''y@s.whatsapp.net'']\<rparr>\<rparr>"
  by (simp add: store3_def store2_eval storeMessage_def Let_def insertMsg_def insertParticipant_def
      part_key_def part_row_def same_key_def m1_def m3_def m4_def conv_row_def msg_row_def)


section \<open>Rows that are read back as they are stored\<close>

lemma read_text_nul_free: "nul_free t \<Longrightarrow> read_text t = t"
  by (auto simp: read_text_def nul_free_def takeWhile_eq_all_conv)

lemma read_text_nul_free_opt: "nul_free_opt v \<Longrightarrow> map_option read_text v = v"
  by (cases v) (simp_all add: nul_free_opt_def read_text_nul_free)

lemma read_integer_safe: "safe_integer v \<Longrightarrow> read_integer v = Inr v"
  by (simp add: read_integer_def safe_integer_def)

lemma read_integer_Inr: "read_integer v = Inr w \<Longrightarrow> w = v"
  by (auto simp: read_integer_def split: if_splits)

lemma readRow_readable: "readable_row r \<Longrightarrow> readRow r = Inr r"
  by (simp add: readRow_def readable_row_def read_integer_safe read_text_nul_free
      read_text_nul_free_opt)

lemma readRow_timestamp: "readRow r = Inr r' \<Longrightarrow> timestamp r' = timestamp r"
  by (auto simp: readRow_def split: sum.splits dest: read_integer_Inr)

lemma stmt_all_readable: "\<forall>r \<in> set rows. readable_row r \<Longrightarrow> stmt_all rows = Inr rows"
  by (induction rows) (simp_all add: readRow_readable)

lemma stmt_all_timestamps:
  "stmt_all rows = Inr rows' \<Longrightarrow> map timestamp rows' = map timestamp rows"
proof (induction rows arbitrary: rows')
  case Nil
  then show ?case by simp
next
  case (Cons r rows)
  from Cons.prems obtain r' rs' where r: "readRow r = Inr r'" and rs: "stmt_all rows = Inr rs'"
    and eq: "rows' = r' # rs'"
    by (auto split: sum.splits)
  from r have "timestamp r' = timestamp r" by (rule readRow_timestamp)
  moreover from rs have "map timestamp rs' = map timestamp rows" by (rule Cons.IH)
  ultimately show ?case using eq by simp
qed

lemma store3_readable: "\<forall>r \<in> set (messages (dbFile store3)). readable_row r"
  by (simp add: store3_eval readable_row_def safe_integer_def nul_free_def nul_free_opt_def
      msg_row_def m1_def m3_def m4_def)

section \<open>Queries without a filter\<close>

lemma whereClause_no_filter: "whereClause getTime no_filter = (\<lambda>r. True)"
  by (simp add: fun_eq_iff whereClause_def from_cond_def to_cond_def conv_cond_def
      account_cond_def no_filter_def)

lemma queryMessages_no_filter:
  "db s \<Longrightarrow> queryMessages getTime no_filter s = stmt_all (sort_key timestamp (messages (dbFile s)))"
  by (simp add: queryMessages_def whereClause_no_filter) (simp add: limitClause_def no_filter_def)

lemma queryMessages_no_filter_readable:
  "db s \<Longrightarrow> \<forall>r \<in> set (messages (dbFile s)). readable_row r \<Longrightarrow>
   queryMessages getTime no_filter s = Inr (sort_key timestamp (messages (dbFile s)))"
  by (simp add: queryMessages_no_filter stmt_all_readable)

lemma db_fresh_store: "db (initialize (new_store d))"
  by (simp add: initialize_def new_store_def)

lemma dbFile_fresh_store: "dbFile (initialize (new_store d)) = d"
  by (simp add: initialize_def new_store_def)

lemma store3_query_all:
  "queryMessages exTime no_filter store3
     = Inr [msg_row 6 ''{}'' m3, msg_row 5 ''{}'' m1, msg_row 7 ''{}'' m4]"
proof -
  have "db store3" by (simp add: store3_eval)
  then have "queryMessages exTime no_filter store3
      = Inr (sort_key timestamp (messages (dbFile store3)))"
    using store3_readable by (rule queryMessages_no_filter_readable)
  then show ?thesis by (simp add: store3_eval msg_row_def m1_def m3_def m4_def)
qed

section \<open>Statistics\<close>

lemma sql_min_Min: "sql_min xs = (if xs = [] then None else Some (Min (set xs)))"
  by (induction xs) (auto simp: min_def)

lemma sql_max_Max: "sql_max xs = (if xs = [] then None else Some (Max (set xs)))"
  by (induction xs) (auto simp: max_def)

lemma read_integer_abs: "\<bar>v\<bar> < 2 ^ 53 \<Longrightarrow> read_integer v = Inr v"
  by (simp add: read_integer_def abs_less_iff)

text \<open>
  Claim C8, as amended. On an open store without messages \<open>getStats\<close> returns the two
  counts and null for both timestamp bounds; on a freshly initialised empty store that
  is zero, zero, null and null. On an open store with messages whose least and greatest
  timestamp are of magnitude at most \<open>2^53 - 1\<close>, it returns the number of message rows,
  the number of conversation rows, and the least and the greatest message timestamp.
\<close>

theorem getStats_counts_and_bounds:
  "(db s \<and> messages (dbFile s) = [] \<longrightarrow>
     getStats s = Inr \<lparr>totalMessages = 0,
        totalConversations = length (conversations (dbFile s)),
        oldestMessage = None, newestMessage = None\<rparr>) \<and>
   (db s \<and> messages (dbFile s) \<noteq> [] \<and>
    \<bar>Min (timestamp ` set (messages (dbFile s)))\<bar> < 2 ^ 53 \<and>
    \<bar>Max (timestamp ` set (messages (dbFile s)))\<bar> < 2 ^ 53 \<longrightarrow>
     getStats s = Inr \<lparr>totalMessages = length (messages (dbFile s)),
        totalConversations = length (conversations (dbFile s)),
        oldestMessage = Some (Min (timestamp ` set (messages (dbFile s)))),
        newestMessage = Some (Max (timestamp ` set (messages (dbFile s))))\<rparr>) \<and>
   getStats (initialize (new_store empty_database))
     = Inr \<lparr>totalMessages = 0, totalConversations = 0, oldestMessage = None, newestMessage = None\<rparr>"
proof (intro conjI impI)
  assume "db s \<and> messages (dbFile s) = []"
  then show "getStats s = Inr \<lparr>totalMessages = 0,
        totalConversations = length (conversations (dbFile s)),
        oldestMessage = None, newestMessage = None\<rparr>"
    by (simp add: getStats_def read_integer_opt_def)
next
  assume a: "db s \<and> messages (dbFile s) \<noteq> [] \<and>
    \<bar>Min (timestamp ` set (messages (dbFile s)))\<bar> < 2 ^ 53 \<and>
    \<bar>Max (timestamp ` set (messages (dbFile s)))\<bar> < 2 ^ 53"
  then have "read_integer_opt (sql_min (map timestamp (messages (dbFile s))))
      = Inr (Some (Min (timestamp ` set (messages (dbFile s)))))"
    and "read_integer_opt (sql_max (map timestamp (messages (dbFile s))))
      = Inr (Some (Max (timestamp ` set (messages (dbFile s)))))"
    by (simp_all add: read_integer_opt_def sql_min_Min sql_max_Max read_integer_abs)
  with a show "getStats s = Inr \<lparr>totalMessages = length (messages (dbFile s)),
        totalConversations = length (conversations (dbFile s)),
        oldestMessage = Some (Min (timestamp ` set (messages (dbFile s)))),
        newestMessage = Some (Max (timestamp ` set (messages (dbFile s))))\<rparr>"
    by (simp add: getStats_def)
next
  show "getStats (initialize (new_store empty_database))
     = Inr \<lparr>totalMessages = 0, totalConversations = 0, oldestMessage = None, newestMessage = None\<rparr>"
    by (simp add: getStats_def read_integer_opt_def initialize_def new_store_def
        empty_database_def)
qed

theorem getStats_counts_and_bounds_witness:
  "db store3 \<and> messages (dbFile store3) \<noteq> [] \<and>
   \<bar>Min (timestamp ` set (messages (dbFile store3)))\<bar> < 2 ^ 53 \<and>
   \<bar>Max (timestamp ` set (messages (dbFile store3)))\<bar> < 2 ^ 53 \<and>
   getStats store3 = Inr \<lparr>totalMessages = 3, totalConversations = 2,
                      oldestMessage = Some 500, newestMessage = Some 2000\<rparr>"
proof -
  have d: "db store3" by (simp add: store3_eval)
  have n: "messages (dbFile store3) \<noteq> []" by (simp add: store3_eval)
  have mn: "Min (timestamp ` set (messages (dbFile store3))) = 500"
    by (simp add: store3_eval msg_row_def m1_def m3_def m4_def)
  have mx: "Max (timestamp ` set (messages (dbFile store3))) = 2000"
    by (simp add: store3_eval msg_row_def m1_def m3_def m4_def)
  have b: "\<bar>Min (timestamp ` set (messages (dbFile store3)))\<bar> < 2 ^ 53"
    "\<bar>Max (timestamp ` set (messages (dbFile store3)))\<bar> < 2 ^ 53"
    unfolding mn mx by simp_all
  from getStats_counts_and_bounds [of store3] d n b
  have "getStats store3 = Inr \<lparr>totalMessages = length (messages (dbFile store3)),
        totalConversations = length (conversations (dbFile store3)),
        oldestMessage = Some (Min (timestamp ` set (messages (dbFile store3)))),
        newestMessage = Some (Max (timestamp ` set (messages (dbFile store3))))\<rparr>"
    by blast
  then have g: "getStats store3 = Inr \<lparr>totalMessages = 3, totalConversations = 2,
                      oldestMessage = Some 500, newestMessage = Some 2000\<rparr>"
    unfolding mn mx by (simp add: store3_eval)
  show ?thesis by (intro conjI d n b g)
qed

text \<open>
  Claim C8 as stated fails: \<open>storeMessage\<close> accepts a message whose timestamp is \<open>2^53\<close>,
  and on the store that holds it \<open>getStats\<close> throws instead of returning the bounds.
\<close>

theorem getStats_unsafe_timestamp_counterexample:
  "p_timestamp big_message = 9007199254740992 \<and>
   storeMessage Some 5 big_message fresh = (Inr (), big_store) \<and>
   db big_store \<and>
   getStats big_store = Inl OutOfRange"
proof -
  have t: "p_timestamp big_message = 9007199254740992" by (simp add: big_message_def)
  have a: "storeMessage Some 5 big_message fresh = (Inr (), big_store)"
    by (simp add: big_store_def prod_eq_iff storeMessage_ok_iff fresh_def db_fresh_store)
  have d: "db big_store" by (simp add: big_store_def db_storeMessage fresh_def db_fresh_store)
  have m: "map timestamp (messages (dbFile big_store)) = [9007199254740992]"
    by (simp add: big_store_def messages_storeMessage fresh_def db_fresh_store
        dbFile_fresh_store empty_database_def insertMsg_def msg_row_def big_message_def)
  have g: "getStats big_store = Inl OutOfRange"
    using d by (simp add: getStats_def m read_integer_opt_def read_integer_def)
  show ?thesis by (intro conjI t a d g)
qed


section \<open>Re-ingestion replaces the message row\<close>

text \<open>
  Claim C1. When \<open>storeMessage\<close> is called twice with the same conversation jid and
  message id, and both calls return, table \<open>messages\<close> holds exactly one row with that
  key after the first call and exactly one after the second. The row after the first
  call holds the first call's values; the row after the second call holds, column by
  column, the second call's values and ingestion time, and nothing of the first call.
\<close>

theorem storeMessage_twice_replaces:
  assumes "conversationJid p2 = conversationJid p1" and "messageId p2 = messageId p1"
    and "storeMessage stringify now1 p1 s = (Inr (), sa)"
    and "storeMessage stringify now2 p2 sa = (Inr (), sb)"
  shows "\<exists>raw1 raw2.
      stringify (rawMessage p1) = Some raw1 \<and> stringify (rawMessage p2) = Some raw2 \<and>
      filter (\<lambda>r. conversation_jid r = conversationJid p1 \<and> message_id r = messageId p1)
        (messages (dbFile sa))
        = [\<lparr>message_id = messageId p1, conversation_jid = conversationJid p1,
            sender_jid = senderJid p1, sender_e164 = senderE164 p1,
            sender_name = senderName p1, body = p_body p1, timestamp = p_timestamp p1,
            is_from_me = (if isFromMe p1 then 1 else 0),
            reply_to_id = replyToId p1, media_path = mediaPath p1, media_type = mediaType p1,
            location_lat = map_option lat (p_location p1),
            location_lon = map_option lon (p_location p1),
            raw_message = raw1, account_id = accountId p1, created_at = now1\<rparr>] \<and>
      filter (\<lambda>r. conversation_jid r = conversationJid p1 \<and> message_id r = messageId p1)
        (messages (dbFile sb))
        = [\<lparr>message_id = messageId p2, conversation_jid = conversationJid p2,
            sender_jid = senderJid p2, sender_e164 = senderE164 p2,
            sender_name = senderName p2, body = p_body p2, timestamp = p_timestamp p2,
            is_from_me = (if isFromMe p2 then 1 else 0),
            reply_to_id = replyToId p2, media_path = mediaPath p2, media_type = mediaType p2,
            location_lat = map_option lat (p_location p2),
            location_lon = map_option lon (p_location p2),
            raw_message = raw2, account_id = accountId p2, created_at = now2\<rparr>]"
proof -
  let ?key = "\<lambda>r. conversation_jid r = conversationJid p1 \<and> message_id r = messageId p1"
  from assms(3) have ok1: "fst (storeMessage stringify now1 p1 s) = Inr ()"
    and sa: "sa = snd (storeMessage stringify now1 p1 s)" by simp_all
  from assms(4) have ok2: "fst (storeMessage stringify now2 p2 sa) = Inr ()"
    and sb: "sb = snd (storeMessage stringify now2 p2 sa)" by simp_all
  from ok1 obtain raw1 where raw1: "stringify (rawMessage p1) = Some raw1" and open0: "db s"
    by (auto simp: storeMessage_ok_iff)
  from ok2 obtain raw2 where raw2: "stringify (rawMessage p2) = Some raw2" and open1: "db sa"
    by (auto simp: storeMessage_ok_iff)
  have k1: "?key = same_key (msg_row now1 raw1 p1)"
    by (simp add: same_key_def msg_row_def fun_eq_iff)
  have k2: "?key = same_key (msg_row now2 raw2 p2)"
    using assms(1,2) by (simp add: same_key_def msg_row_def fun_eq_iff)
  have "messages (dbFile sa) = insertMsg (msg_row now1 raw1 p1) (messages (dbFile s))"
    unfolding sa using raw1 open0 by (simp add: messages_storeMessage)
  then have a: "filter ?key (messages (dbFile sa)) = [msg_row now1 raw1 p1]"
    unfolding k1 by (simp add: filter_insertMsg)
  have "messages (dbFile sb) = insertMsg (msg_row now2 raw2 p2) (messages (dbFile sa))"
    unfolding sb using raw2 open1 by (simp add: messages_storeMessage)
  then have b: "filter ?key (messages (dbFile sb)) = [msg_row now2 raw2 p2]"
    unfolding k2 by (simp add: filter_insertMsg)
  show ?thesis
    by (rule exI [of _ raw1], rule exI [of _ raw2])
       (use raw1 raw2 a b in \<open>simp add: msg_row_def\<close>)
qed

theorem storeMessage_twice_replaces_witness:
  "conversationJid m2 = conversationJid m1 \<and> messageId m2 = messageId m1 \<and>
   storeMessage Some 5 m1 fresh = (Inr (), store1) \<and>
   storeMessage Some 7 m2 store1 = (Inr (), snd (storeMessage Some 7 m2 store1)) \<and>
   filter (\<lambda>r. conversation_jid r = ''a@s.whatsapp.net'' \<and> message_id r = ''msg-1'')
     (messages (dbFile store1))
     = [\<lparr>message_id = ''msg-1'', conversation_jid = ''a@s.whatsapp.net'',
         sender_jid = Some ''a@s.whatsapp.net'', sender_e164 = Some ''+1234567890'',
         sender_name = None, body = ''Hello'', timestamp = 1000, is_from_me = 0,
         reply_to_id = None, media_path = None, media_type = None,
         location_lat = None, location_lon = None,
         raw_message = ''{}'', account_id = ''default'', created_at = 5\<rparr>] \<and>
   filter (\<lambda>r. conversation_jid r = ''a@s.whatsapp.net'' \<and> message_id r = ''msg-1'')
     (messages (dbFile (snd (storeMessage Some 7 m2 store1))))
     = [\<lparr>message_id = ''msg-1'', conversation_jid = ''a@s.whatsapp.net'',
         sender_jid = Some ''a@s.whatsapp.net'', sender_e164 = Some ''+1234567890'',
         sender_name = None, body = ''Bye'', timestamp = 900, is_from_me = 1,
         reply_to_id = None, media_path = None, media_type = None,
         location_lat = None, location_lon = None,
         raw_message = ''{}'', account_id = ''default'', created_at = 7\<rparr>]"
proof -
  have k: "conversationJid m2 = conversationJid m1" "messageId m2 = messageId m1"
    by (simp_all add: m2_def)
  have a: "storeMessage Some 5 m1 fresh = (Inr (), store1)"
    by (simp add: store1_def prod_eq_iff storeMessage_ok_iff fresh_def db_fresh_store)
  have "db store1" by (simp add: store1_def db_storeMessage fresh_def db_fresh_store)
  then have b: "storeMessage Some 7 m2 store1 = (Inr (), snd (storeMessage Some 7 m2 store1))"
    by (simp add: prod_eq_iff storeMessage_ok_iff)
  from storeMessage_twice_replaces [OF k a b]
  obtain raw1 raw2 where r1: "Some (rawMessage m1) = Some raw1"
    and r2: "Some (rawMessage m2) = Some raw2"
    and f1: "filter (\<lambda>r. conversation_jid r = conversationJid m1 \<and> message_id r = messageId m1)
        (messages (dbFile store1))
        = [\<lparr>message_id = messageId m1, conversation_jid = conversationJid m1,
            sender_jid = senderJid m1, sender_e164 = senderE164 m1,
            sender_name = senderName m1, body = p_body m1, timestamp = p_timestamp m1,
            is_from_me = (if isFromMe m1 then 1 else 0),
            reply_to_id = replyToId m1, media_path = mediaPath m1, media_type = mediaType m1,
            location_lat = map_option lat (p_location m1),
            location_lon = map_option lon (p_location m1),
            raw_message = raw1, account_id = accountId m1, created_at = 5\<rparr>]"
    and f2: "filter (\<lambda>r. conversation_jid r = conversationJid m1 \<and> message_id r = messageId m1)
        (messages (dbFile (snd (storeMessage Some 7 m2 store1))))
        = [\<lparr>message_id = messageId m2, conversation_jid = conversationJid m2,
            sender_jid = senderJid m2, sender_e164 = senderE164 m2,
            sender_name = senderName m2, body = p_body m2, timestamp = p_timestamp m2,
            is_from_me = (if isFromMe m2 then 1 else 0),
            reply_to_id = replyToId m2, media_path = mediaPath m2, media_type = mediaType m2,
            location_lat = map_option lat (p_location m2),
            location_lon = map_option lon (p_location m2),
            raw_message = raw2, account_id = accountId m2, created_at = 7\<rparr>]"
    by blast
  from r1 have raw1: "raw1 = ''{}''" by (simp add: m1_def)
  from r2 have raw2: "raw2 = ''{}''" by (simp add: m2_def m1_def)
  have j: "conversationJid m1 = ''a@s.whatsapp.net''" "messageId m1 = ''msg-1''"
    by (simp_all add: m1_def)
  from f1 have g1: "filter (\<lambda>r. conversation_jid r = ''a@s.whatsapp.net'' \<and> message_id r = ''msg-1'')
     (messages (dbFile store1))
     = [\<lparr>message_id = ''msg-1'', conversation_jid = ''a@s.whatsapp.net'',
         sender_jid = Some ''a@s.whatsapp.net'', sender_e164 = Some ''+1234567890'',
         sender_name = None, body = ''Hello'', timestamp = 1000, is_from_me = 0,
         reply_to_id = None, media_path = None, media_type = None,
         location_lat = None, location_lon = None,
         raw_message = ''{}'', account_id = ''default'', created_at = 5\<rparr>]"
    unfolding j raw1 by (simp add: m1_def)
  from f2 have g2: "filter (\<lambda>r. conversation_jid r = ''a@s.whatsapp.net'' \<and> message_id r = ''msg-1'')
     (messages (dbFile (snd (storeMessage Some 7 m2 store1))))
     = [\<lparr>message_id = ''msg-1'', conversation_jid = ''a@s.whatsapp.net'',
         sender_jid = Some ''a@s.whatsapp.net'', sender_e164 = Some ''+1234567890'',
         sender_name = None, body = ''Bye'', timestamp = 900, is_from_me = 1,
         reply_to_id = None, media_path = None, media_type = None,
         location_lat = None, location_lon = None,
         raw_message = ''{}'', account_id = ''default'', created_at = 7\<rparr>]"
    unfolding j raw2 by (simp add: m2_def m1_def)
  show ?thesis by (intro conjI k a b g1 g2)
qed


section \<open>Operations on a store that is not open\<close>

text \<open>
  Claim C9. The handle is null after construction and after \<open>close\<close>; and whenever it is
  null, \<open>storeMessage\<close> raises the not-initialised error and leaves the store as it was,
  and \<open>queryMessages\<close>, \<open>exportMessages\<close> and \<open>getStats\<close>, which never write, raise it too.
\<close>

theorem not_initialized_errors:
  "\<not> db (new_store d) \<and> \<not> db (close s0) \<and>
   (\<not> db s \<longrightarrow>
      storeMessage stringify now p s = (Inl NotInitialized, s) \<and>
      queryMessages getTime flt s = Inl NotInitialized \<and>
      exportMessages getTime flt s = Inl NotInitialized \<and>
      getStats s = Inl NotInitialized)"
  by (simp add: new_store_def close_def storeMessage_def queryMessages_def exportMessages_def
      getStats_def)

theorem not_initialized_errors_witness:
  "\<not> db (close store3) \<and>
   storeMessage Some 9 m2 (close store3) = (Inl NotInitialized, close store3) \<and>
   queryMessages exTime no_filter (close store3) = Inl NotInitialized \<and>
   exportMessages exTime no_filter (close store3) = Inl NotInitialized \<and>
   getStats (close store3) = Inl NotInitialized \<and>
   dbFile (close store3) = dbFile store3"
proof -
  have d: "\<not> db (close store3)" by (simp add: close_def)
  have f: "dbFile (close store3) = dbFile store3" by (simp add: close_def)
  from not_initialized_errors [of empty_database store3 "close store3" Some 9 m2 exTime no_filter] d f
  show ?thesis by simp
qed


section \<open>Falsy filter values\<close>

lemma whereClause_limit: "whereClause getTime (flt\<lparr>f_limit := l\<rparr>) = whereClause getTime flt"
  by (simp add: fun_eq_iff whereClause_def from_cond_def to_cond_def conv_cond_def account_cond_def)

lemma whereClause_from_empty:
  "whereClause getTime (flt\<lparr>f_from := Some []\<rparr>) = whereClause getTime (flt\<lparr>f_from := None\<rparr>)"
  by (simp add: fun_eq_iff whereClause_def from_cond_def to_cond_def conv_cond_def account_cond_def)

lemma whereClause_to_empty:
  "whereClause getTime (flt\<lparr>f_to := Some []\<rparr>) = whereClause getTime (flt\<lparr>f_to := None\<rparr>)"
  by (simp add: fun_eq_iff whereClause_def from_cond_def to_cond_def conv_cond_def account_cond_def)

lemma queryMessages_limit_zero:
  "queryMessages getTime (flt\<lparr>f_limit := Some 0\<rparr>) s = queryMessages getTime (flt\<lparr>f_limit := None\<rparr>) s"
  by (simp add: queryMessages_def whereClause_limit limitClause_def)

text \<open>
  Claim C10. \<open>queryMessages\<close> treats falsy filter values as absent: an empty \<open>from\<close>, an
  empty \<open>to\<close> or a limit of 0 gives the result of the same filter without that field; so
  on an open store a filter holding only the limit 0 selects every row of the table, in
  ascending timestamp order, rather than no row, and returns them all when they are
  read back as they are stored.
\<close>

theorem falsy_filter_values_absent:
  "queryMessages getTime (flt\<lparr>f_from := Some ''''\<rparr>) s = queryMessages getTime (flt\<lparr>f_from := None\<rparr>) s \<and>
   queryMessages getTime (flt\<lparr>f_to := Some ''''\<rparr>) s = queryMessages getTime (flt\<lparr>f_to := None\<rparr>) s \<and>
   queryMessages getTime (flt\<lparr>f_limit := Some 0\<rparr>) s = queryMessages getTime (flt\<lparr>f_limit := None\<rparr>) s \<and>
   (db s \<longrightarrow>
      queryMessages getTime (no_filter\<lparr>f_limit := Some 0\<rparr>) s
        = stmt_all (sort_key timestamp (messages (dbFile s)))) \<and>
   (db s \<and> (\<forall>r \<in> set (messages (dbFile s)). readable_row r) \<longrightarrow>
      queryMessages getTime (no_filter\<lparr>f_limit := Some 0\<rparr>) s
        = Inr (sort_key timestamp (messages (dbFile s))))"
proof (intro conjI impI)
  show "queryMessages getTime (flt\<lparr>f_from := Some ''''\<rparr>) s
      = queryMessages getTime (flt\<lparr>f_from := None\<rparr>) s"
    by (simp add: queryMessages_def whereClause_from_empty limitClause_def)
  show "queryMessages getTime (flt\<lparr>f_to := Some ''''\<rparr>) s
      = queryMessages getTime (flt\<lparr>f_to := None\<rparr>) s"
    by (simp add: queryMessages_def whereClause_to_empty limitClause_def)
  show "queryMessages getTime (flt\<lparr>f_limit := Some 0\<rparr>) s
      = queryMessages getTime (flt\<lparr>f_limit := None\<rparr>) s"
    by (rule queryMessages_limit_zero)
  have n: "no_filter\<lparr>f_limit := None\<rparr> = no_filter" by (simp add: no_filter_def)
  show "queryMessages getTime (no_filter\<lparr>f_limit := Some 0\<rparr>) s
        = stmt_all (sort_key timestamp (messages (dbFile s)))" if "db s"
    using that queryMessages_limit_zero [of getTime no_filter s]
    by (simp add: n queryMessages_no_filter)
  assume "db s \<and> (\<forall>r \<in> set (messages (dbFile s)). readable_row r)"
  then have "queryMessages getTime no_filter s = Inr (sort_key timestamp (messages (dbFile s)))"
    by (simp add: queryMessages_no_filter_readable)
  then show "queryMessages getTime (no_filter\<lparr>f_limit := Some 0\<rparr>) s
        = Inr (sort_key timestamp (messages (dbFile s)))"
    using queryMessages_limit_zero [of getTime no_filter s] by (simp add: n)
qed

theorem falsy_filter_values_absent_witness:
  "db store3 \<and>
   queryMessages exTime (no_filter\<lparr>f_limit := Some 0\<rparr>) store3
     = Inr [msg_row 6 ''{}'' m3, msg_row 5 ''{}'' m1, msg_row 7 ''{}'' m4]"
proof -
  have d: "db store3" by (simp add: store3_eval)
  have "db store3 \<and> (\<forall>r \<in> set (messages (dbFile store3)). readable_row r) \<longrightarrow>
      queryMessages exTime (no_filter\<lparr>f_limit := Some 0\<rparr>) store3
          = Inr (sort_key timestamp (messages (dbFile store3)))"
    using falsy_filter_values_absent [of exTime no_filter store3] by blast
  with d store3_readable
  have "queryMessages exTime (no_filter\<lparr>f_limit := Some 0\<rparr>) store3
          = Inr (sort_key timestamp (messages (dbFile store3)))"
    by blast
  then have q: "queryMessages exTime (no_filter\<lparr>f_limit := Some 0\<rparr>) store3
     = Inr [msg_row 6 ''{}'' m3, msg_row 5 ''{}'' m1, msg_row 7 ''{}'' m4]"
    by (simp add: store3_eval msg_row_def m1_def m3_def m4_def)
  show ?thesis by (intro conjI d q)
qed


section \<open>The grouping loop\<close>

lemma first_seen_snoc:
  "first_seen (xs @ [x]) = (if x \<in> set xs then first_seen xs else first_seen xs @ [x])"
  by (simp add: first_seen_def)

lemma set_first_seen [simp]: "set (first_seen xs) = set xs"
  by (simp add: first_seen_def)

lemma distinct_first_seen [simp]: "distinct (first_seen xs)"
  by (simp add: first_seen_def)

lemma map_of_keyed: "map_of (map (\<lambda>j. (j, f j)) js) k = (if k \<in> set js then Some (f k) else None)"
  by (induction js) auto

lemma update_keyed_notin:
  "k \<notin> set js \<Longrightarrow> AList.update k v (map (\<lambda>j. (j, f j)) js) = map (\<lambda>j. (j, f j)) js @ [(k, v)]"
  by (induction js) auto

lemma update_keyed_in:
  "k \<in> set js \<Longrightarrow> distinct js \<Longrightarrow>
   AList.update k v (map (\<lambda>j. (j, f j)) js) = map (\<lambda>j. (j, if j = k then v else f j)) js"
proof (induction js)
  case Nil
  then show ?case by simp
next
  case (Cons a js)
  show ?case
  proof (cases "a = k")
    case True
    with Cons.prems have "k \<notin> set js" by simp
    then have "map (\<lambda>j. (j, f j)) js = map (\<lambda>j. (j, if j = k then v else f j)) js"
      by (intro map_cong) auto
    with True show ?thesis by simp
  next
    case False
    with Cons show ?thesis by simp
  qed
qed

lemma export_step:
  "AList.update (conversation_jid m)
     ((case map_of (groups_of convs pre) (conversation_jid m) of
         Some c \<Rightarrow> c | None \<Rightarrow> new_conv convs (conversation_jid m))
      \<lparr>ec_messages := ec_messages (case map_of (groups_of convs pre) (conversation_jid m) of
         Some c \<Rightarrow> c | None \<Rightarrow> new_conv convs (conversation_jid m)) @ [to_exported m]\<rparr>)
     (groups_of convs pre)
   = groups_of convs (pre @ [m])"
proof (cases "conversation_jid m \<in> set (map conversation_jid pre)")
  case True
  then show ?thesis
    by (auto simp: groups_of_def map_of_keyed update_keyed_in first_seen_snoc group_of_def
        intro!: map_cong)
next
  case False
  then have "filter (\<lambda>r. conversation_jid r = conversation_jid m) pre = []"
    by (auto simp: filter_empty_conv image_iff)
  with False show ?thesis
    by (auto simp: groups_of_def map_of_keyed update_keyed_notin first_seen_snoc group_of_def
        new_conv_def Let_def intro!: map_cong)
qed

lemma export_loop_groups:
  "export_loop convs post (groups_of convs pre) = groups_of convs (pre @ post)"
proof (induction post arbitrary: pre)
  case Nil
  then show ?case by simp
next
  case (Cons m post)
  have "export_loop convs (m # post) (groups_of convs pre)
      = export_loop convs post (groups_of convs (pre @ [m]))"
    by (simp add: Let_def export_step)
  also have "\<dots> = groups_of convs ((pre @ [m]) @ post)" by (rule Cons.IH)
  finally show ?case by simp
qed

lemma export_loop_empty: "export_loop convs rows [] = groups_of convs rows"
  using export_loop_groups [of convs rows "[]"] by (simp add: groups_of_def first_seen_def)


section \<open>What a filtered query returns\<close>

lemma whereClause_iff:
  "whereClause getTime flt r \<longleftrightarrow>
     (\<forall>str. f_from flt = Some str \<longrightarrow> str \<noteq> [] \<longrightarrow>
        (\<exists>fromMs. getTime str = Some fromMs \<and> fromMs \<le> timestamp r)) \<and>
     (\<forall>str. f_to flt = Some str \<longrightarrow> str \<noteq> [] \<longrightarrow>
        (\<exists>toMs. getTime str = Some toMs \<and> timestamp r \<le> toMs)) \<and>
     (\<forall>j. f_conversationJid flt = Some j \<longrightarrow> j \<noteq> [] \<longrightarrow> conversation_jid r = j) \<and>
     (\<forall>a. f_accountId flt = Some a \<longrightarrow> a \<noteq> [] \<longrightarrow> account_id r = a)"
  by (auto simp: whereClause_def from_cond_def to_cond_def conv_cond_def account_cond_def
      split: option.splits)

lemma sorted_limitClause:
  "limitClause flt rows = Inr rows' \<Longrightarrow> sorted (map timestamp rows) \<Longrightarrow>
   sorted (map timestamp rows')"
  by (auto simp: limitClause_def take_map [symmetric] sorted_wrt_take
      split: option.splits if_splits)

lemma queryMessages_sorted:
  assumes "queryMessages getTime flt s = Inr rows"
  shows "sorted (map timestamp rows)"
proof -
  let ?sel = "sort_key timestamp (filter (whereClause getTime flt) (messages (dbFile s)))"
  from assms obtain lim where l: "limitClause flt ?sel = Inr lim" and r: "stmt_all lim = Inr rows"
    by (auto simp: queryMessages_def split: if_splits sum.splits)
  have "sorted (map timestamp lim)" using l by (rule sorted_limitClause) simp
  with stmt_all_timestamps [OF r] show ?thesis by simp
qed

lemma limitClause_valid:
  assumes "\<forall>n. f_limit flt = Some n \<longrightarrow> of_int \<lfloor>n\<rfloor> = n \<and> - (2 ^ 63) < n \<and> n < 2 ^ 63"
  shows "limitClause flt rows
           = Inr (case f_limit flt of
                    None \<Rightarrow> rows
                  | Some n \<Rightarrow> if 0 < n then take (nat \<lfloor>n\<rfloor>) rows else rows)"
proof (cases "f_limit flt")
  case None
  then show ?thesis by (simp add: limitClause_def)
next
  case (Some n)
  with assms have "of_int \<lfloor>n\<rfloor> = n" and "- (2 ^ 63) < n" and "n < 2 ^ 63" by simp_all
  with Some show ?thesis by (simp add: limitClause_def)
qed

lemma queryMessages_readable:
  assumes "db s" and "\<forall>r \<in> set (messages (dbFile s)). readable_row r"
    and "\<forall>n. f_limit flt = Some n \<longrightarrow> of_int \<lfloor>n\<rfloor> = n \<and> - (2 ^ 63) < n \<and> n < 2 ^ 63"
  shows "queryMessages getTime flt s
           = Inr (case f_limit flt of
                    None \<Rightarrow> sort_key timestamp (filter (whereClause getTime flt) (messages (dbFile s)))
                  | Some n \<Rightarrow>
                      if 0 < n
                      then take (nat \<lfloor>n\<rfloor>)
                             (sort_key timestamp (filter (whereClause getTime flt) (messages (dbFile s))))
                      else sort_key timestamp (filter (whereClause getTime flt) (messages (dbFile s))))"
proof -
  let ?sel = "sort_key timestamp (filter (whereClause getTime flt) (messages (dbFile s)))"
  let ?lim = "case f_limit flt of
                None \<Rightarrow> ?sel
              | Some n \<Rightarrow> if 0 < n then take (nat \<lfloor>n\<rfloor>) ?sel else ?sel"
  have l: "limitClause flt ?sel = Inr ?lim" using assms(3) by (rule limitClause_valid)
  have "set ?lim \<subseteq> set ?sel"
    by (auto split: option.splits dest: in_set_takeD)
  then have "\<forall>r \<in> set ?lim. readable_row r" using assms(2) by auto
  then have "stmt_all ?lim = Inr ?lim" by (rule stmt_all_readable)
  with l assms(1) show ?thesis by (simp add: queryMessages_def)
qed

text \<open>
  Claim C3, as amended. Take an open store whose message rows are read back as they
  are stored, and a filter whose limit, when there is one, is an integer strictly
  between \<open>-2^63\<close> and \<open>2^63\<close>. The query without its limit returns exactly the message
  rows that satisfy every condition the filter supplies, each row once, in ascending
  timestamp order. A string field supplies a condition when it is present and not
  empty: \<open>from\<close> and \<open>to\<close> bound the timestamp inclusively by the parsed date (a date
  that does not parse matches no row), \<open>conversationJid\<close> and \<open>accountId\<close> must be equal
  to the row's. With a positive limit the query returns the first that many rows of that
  list; with no limit, or a limit that is not positive, it returns the whole list.
\<close>

theorem queryMessages_filters_sorts_limits:
  assumes "db s" and "\<forall>r \<in> set (messages (dbFile s)). readable_row r"
    and "\<forall>n. f_limit flt = Some n \<longrightarrow> of_int \<lfloor>n\<rfloor> = n \<and> - (2 ^ 63) < n \<and> n < 2 ^ 63"
  shows "\<exists>full. queryMessages getTime (flt\<lparr>f_limit := None\<rparr>) s = Inr full \<and>
           mset full = {# r \<in># mset (messages (dbFile s)).
              (\<forall>str. f_from flt = Some str \<longrightarrow> str \<noteq> [] \<longrightarrow>
                 (\<exists>fromMs. getTime str = Some fromMs \<and> fromMs \<le> timestamp r)) \<and>
              (\<forall>str. f_to flt = Some str \<longrightarrow> str \<noteq> [] \<longrightarrow>
                 (\<exists>toMs. getTime str = Some toMs \<and> timestamp r \<le> toMs)) \<and>
              (\<forall>j. f_conversationJid flt = Some j \<longrightarrow> j \<noteq> [] \<longrightarrow> conversation_jid r = j) \<and>
              (\<forall>a. f_accountId flt = Some a \<longrightarrow> a \<noteq> [] \<longrightarrow> account_id r = a) #} \<and>
           sorted (map timestamp full) \<and>
           queryMessages getTime flt s
             = Inr (case f_limit flt of
                      None \<Rightarrow> full
                    | Some n \<Rightarrow> if 0 < n then take (nat \<lfloor>n\<rfloor>) full else full)"
proof -
  let ?full = "sort_key timestamp (filter (whereClause getTime flt) (messages (dbFile s)))"
  have "queryMessages getTime (flt\<lparr>f_limit := None\<rparr>) s
      = Inr (sort_key timestamp (filter (whereClause getTime (flt\<lparr>f_limit := None\<rparr>))
               (messages (dbFile s))))"
    using queryMessages_readable [OF assms(1,2), of "flt\<lparr>f_limit := None\<rparr>" getTime] by simp
  then have 1: "queryMessages getTime (flt\<lparr>f_limit := None\<rparr>) s = Inr ?full"
    by (simp add: whereClause_limit)
  have 2: "mset ?full = filter_mset (whereClause getTime flt) (mset (messages (dbFile s)))"
    by simp
  have 3: "sorted (map timestamp ?full)" by simp
  have 4: "queryMessages getTime flt s
             = Inr (case f_limit flt of
                      None \<Rightarrow> ?full
                    | Some n \<Rightarrow> if 0 < n then take (nat \<lfloor>n\<rfloor>) ?full else ?full)"
    using assms by (rule queryMessages_readable)
  from 1 2 3 4 show ?thesis unfolding whereClause_iff by blast
qed

theorem queryMessages_filters_sorts_limits_witness:
  "db store3 \<and> f_limit from600_limit1 = Some 1 \<and>
   queryMessages exTime (from600_limit1\<lparr>f_limit := None\<rparr>) store3
     = Inr [msg_row 5 ''{}'' m1, msg_row 7 ''{}'' m4] \<and>
   queryMessages exTime from600_limit1 store3 = Inr [msg_row 5 ''{}'' m1]"
proof -
  have d: "db store3" by (simp add: store3_eval)
  have l: "f_limit from600_limit1 = Some 1" by (simp add: from600_limit1_def)
  then have v: "\<forall>n. f_limit from600_limit1 = Some n \<longrightarrow>
      of_int \<lfloor>n\<rfloor> = n \<and> - (2 ^ 63) < n \<and> n < 2 ^ 63"
    by simp
  have w: "filter (whereClause exTime (from600_limit1\<lparr>f_limit := None\<rparr>)) (messages (dbFile store3))
      = [msg_row 5 ''{}'' m1, msg_row 7 ''{}'' m4]"
    by (simp add: from600_limit1_def no_filter_def whereClause_def from_cond_def to_cond_def
        conv_cond_def account_cond_def exTime_def store3_eval msg_row_def m1_def m3_def m4_def)
  have "queryMessages exTime (from600_limit1\<lparr>f_limit := None\<rparr>) store3
      = Inr (sort_key timestamp
               (filter (whereClause exTime (from600_limit1\<lparr>f_limit := None\<rparr>))
                  (messages (dbFile store3))))"
    using queryMessages_readable [OF d store3_readable, of "from600_limit1\<lparr>f_limit := None\<rparr>" exTime]
    by simp
  then have e: "queryMessages exTime (from600_limit1\<lparr>f_limit := None\<rparr>) store3
             = Inr [msg_row 5 ''{}'' m1, msg_row 7 ''{}'' m4]"
    unfolding w by (simp add: msg_row_def m1_def m4_def)
  from queryMessages_filters_sorts_limits [OF d store3_readable v, of exTime]
  obtain full where a: "queryMessages exTime (from600_limit1\<lparr>f_limit := None\<rparr>) store3 = Inr full"
    and b: "queryMessages exTime from600_limit1 store3
             = Inr (case f_limit from600_limit1 of
                      None \<Rightarrow> full
                    | Some n \<Rightarrow> if 0 < n then take (nat \<lfloor>n\<rfloor>) full else full)"
    by blast
  from a e have "full = [msg_row 5 ''{}'' m1, msg_row 7 ''{}'' m4]" by simp
  with b l have q: "queryMessages exTime from600_limit1 store3 = Inr [msg_row 5 ''{}'' m1]"
    by simp
  show ?thesis by (intro conjI d l e q)
qed

text \<open>
  Claim C3 as stated fails: the filter \<open>limit0\<close> supplies the limit 0, and the query
  returns three rows, which is more than 0.
\<close>

theorem queryMessages_limit_zero_counterexample:
  "f_limit limit0 = Some 0 \<and>
   queryMessages exTime limit0 store3
     = Inr [msg_row 6 ''{}'' m3, msg_row 5 ''{}'' m1, msg_row 7 ''{}'' m4] \<and>
   \<not> int (length [msg_row 6 ''{}'' m3, msg_row 5 ''{}'' m1, msg_row 7 ''{}'' m4]) \<le> 0"
proof -
  have l: "f_limit limit0 = Some 0" by (simp add: limit0_def)
  have "queryMessages exTime limit0 store3 = queryMessages exTime no_filter store3"
    unfolding limit0_def using queryMessages_limit_zero [of exTime no_filter store3]
    by (simp add: no_filter_def)
  then have q: "queryMessages exTime limit0 store3
     = Inr [msg_row 6 ''{}'' m3, msg_row 5 ''{}'' m1, msg_row 7 ''{}'' m4]"
    by (simp add: store3_query_all)
  have n: "\<not> int (length [msg_row 6 ''{}'' m3, msg_row 5 ''{}'' m1, msg_row 7 ''{}'' m4]) \<le> 0"
    by simp
  show ?thesis by (intro conjI l q n)
qed


section \<open>The grouped export\<close>

lemma e_timestamp_to_exported: "e_timestamp \<circ> to_exported = timestamp"
  by (simp add: fun_eq_iff to_exported_def)

lemma sorted_map_filter: "sorted (map f xs) \<Longrightarrow> sorted (map f (filter P xs))"
  by (metis sorted_filter)

lemma to_exported_fields:
  "to_exported =
     (\<lambda>r. \<lparr>e_messageId = message_id r, e_senderJid = sender_jid r,
            e_senderE164 = sender_e164 r, e_senderName = sender_name r,
            e_body = body r, e_timestamp = timestamp r,
            e_isFromMe = (is_from_me r \<noteq> 0),
            e_replyToId = reply_to_id r, e_mediaPath = media_path r,
            e_mediaType = media_type r,
            e_location = (case (location_lat r, location_lon r) of
                            (Some la, Some lo) \<Rightarrow> Some \<lparr>lat = la, lon = lo\<rparr>
                          | _ \<Rightarrow> None)\<rparr>)"
  by (simp add: fun_eq_iff to_exported_def)

lemma read_text_takeWhile: "read_text = takeWhile (\<lambda>c. c \<noteq> CHR 0x00)"
  by (simp add: fun_eq_iff read_text_def)

lemma exportMessages_of_query:
  "db s \<Longrightarrow> exportMessages getTime flt s =
     (case queryMessages getTime flt s of
        Inl e \<Rightarrow> Inl e
      | Inr rows \<Rightarrow> Inr (map snd (groups_of (conversations (dbFile s)) rows)))"
  by (simp add: exportMessages_def export_loop_empty split: sum.splits)

text \<open>
  Claim C4, as amended. On an open store, when the filtered query fails so does
  \<open>exportMessages\<close>, with the same error; when the query returns rows, \<open>exportMessages\<close>
  returns one group for each conversation jid of these rows, in the order in which the
  jids first occur in that timestamp-ascending result. A group holds the exported form
  of exactly the result rows of its conversation, in the order of the result, hence in
  ascending timestamp order; its chat type and display name are those of the
  conversation row with that jid, the display name as it is read back, and \<open>Direct\<close>
  and null when there is no such row. The query returns, and so does the export, when
  the message rows are read back as they are stored and the limit, if there is one, is
  an integer strictly between \<open>-2^63\<close> and \<open>2^63\<close>.
\<close>

theorem exportMessages_groups:
  assumes "db s"
  shows "(\<forall>e. queryMessages getTime flt s = Inl e \<longrightarrow> exportMessages getTime flt s = Inl e) \<and>
    (\<forall>rows. queryMessages getTime flt s = Inr rows \<longrightarrow>
      (\<exists>groups.
         exportMessages getTime flt s = Inr groups \<and>
         map ec_jid groups = rev (remdups (rev (map conversation_jid rows))) \<and>
         (\<forall>g \<in> set groups.
            ec_messages g
              = map (\<lambda>r. \<lparr>e_messageId = message_id r, e_senderJid = sender_jid r,
                           e_senderE164 = sender_e164 r, e_senderName = sender_name r,
                           e_body = body r, e_timestamp = timestamp r,
                           e_isFromMe = (is_from_me r \<noteq> 0),
                           e_replyToId = reply_to_id r, e_mediaPath = media_path r,
                           e_mediaType = media_type r,
                           e_location = (case (location_lat r, location_lon r) of
                                           (Some la, Some lo) \<Rightarrow> Some \<lparr>lat = la, lon = lo\<rparr>
                                         | _ \<Rightarrow> None)\<rparr>)
                  (filter (\<lambda>r. conversation_jid r = ec_jid g) rows) \<and>
            sorted (map e_timestamp (ec_messages g)) \<and>
            ec_chatType g = (case find (\<lambda>c. jid c = ec_jid g) (conversations (dbFile s)) of
                               None \<Rightarrow> Direct | Some c \<Rightarrow> chat_type c) \<and>
            ec_displayName g = (case find (\<lambda>c. jid c = ec_jid g) (conversations (dbFile s)) of
                                  None \<Rightarrow> None
                                | Some c \<Rightarrow> map_option (takeWhile (\<lambda>c. c \<noteq> CHR 0x00))
                                              (display_name c))))) \<and>
    ((\<forall>r \<in> set (messages (dbFile s)). readable_row r) \<and>
     (\<forall>n. f_limit flt = Some n \<longrightarrow> of_int \<lfloor>n\<rfloor> = n \<and> - (2 ^ 63) < n \<and> n < 2 ^ 63) \<longrightarrow>
       (\<exists>groups. exportMessages getTime flt s = Inr groups))"
proof (intro conjI allI impI)
  fix e
  assume "queryMessages getTime flt s = Inl e"
  with assms show "exportMessages getTime flt s = Inl e"
    by (simp add: exportMessages_of_query)
next
  fix rows
  assume q: "queryMessages getTime flt s = Inr rows"
  let ?convs = "conversations (dbFile s)"
  let ?groups = "map snd (groups_of ?convs rows)"
  let ?ex = "\<lambda>r. \<lparr>e_messageId = message_id r, e_senderJid = sender_jid r,
                           e_senderE164 = sender_e164 r, e_senderName = sender_name r,
                           e_body = body r, e_timestamp = timestamp r,
                           e_isFromMe = (is_from_me r \<noteq> 0),
                           e_replyToId = reply_to_id r, e_mediaPath = media_path r,
                           e_mediaType = media_type r,
                           e_location = (case (location_lat r, location_lon r) of
                                           (Some la, Some lo) \<Rightarrow> Some \<lparr>lat = la, lon = lo\<rparr>
                                         | _ \<Rightarrow> None)\<rparr>"
  have e: "exportMessages getTime flt s = Inr ?groups"
    using assms q by (simp add: exportMessages_of_query)
  have srt: "sorted (map timestamp rows)" using q by (rule queryMessages_sorted)
  have k: "map ec_jid ?groups = rev (remdups (rev (map conversation_jid rows)))"
    by (simp add: groups_of_def group_of_def new_conv_def Let_def comp_def first_seen_def)
  have g: "ec_messages g = map ?ex (filter (\<lambda>r. conversation_jid r = ec_jid g) rows) \<and>
        sorted (map e_timestamp (ec_messages g)) \<and>
        ec_chatType g = (case find (\<lambda>c. jid c = ec_jid g) ?convs of
                           None \<Rightarrow> Direct | Some c \<Rightarrow> chat_type c) \<and>
        ec_displayName g = (case find (\<lambda>c. jid c = ec_jid g) ?convs of
                              None \<Rightarrow> None
                            | Some c \<Rightarrow> map_option (takeWhile (\<lambda>c. c \<noteq> CHR 0x00))
                                          (display_name c))"
    if "g \<in> set ?groups" for g
  proof -
    from that obtain j where j: "g = group_of ?convs rows j"
      by (auto simp: groups_of_def)
    have m: "ec_messages g = map to_exported (filter (\<lambda>r. conversation_jid r = ec_jid g) rows)"
      unfolding j by (simp add: group_of_def new_conv_def Let_def)
    then have 1: "ec_messages g = map ?ex (filter (\<lambda>r. conversation_jid r = ec_jid g) rows)"
      unfolding to_exported_fields .
    have 2: "sorted (map e_timestamp (ec_messages g))"
      unfolding m using srt by (simp add: e_timestamp_to_exported sorted_map_filter)
    have 3: "ec_chatType g = (case find (\<lambda>c. jid c = ec_jid g) ?convs of
                           None \<Rightarrow> Direct | Some c \<Rightarrow> chat_type c)"
      unfolding j by (simp add: group_of_def new_conv_def Let_def)
    have 4: "ec_displayName g = (case find (\<lambda>c. jid c = ec_jid g) ?convs of
                              None \<Rightarrow> None
                            | Some c \<Rightarrow> map_option (takeWhile (\<lambda>c. c \<noteq> CHR 0x00))
                                          (display_name c))"
      unfolding j read_text_takeWhile [symmetric]
      by (simp add: group_of_def new_conv_def Let_def)
    show ?thesis by (intro conjI 1 2 3 4)
  qed
  show "\<exists>groups.
         exportMessages getTime flt s = Inr groups \<and>
         map ec_jid groups = rev (remdups (rev (map conversation_jid rows))) \<and>
         (\<forall>g \<in> set groups.
            ec_messages g = map ?ex (filter (\<lambda>r. conversation_jid r = ec_jid g) rows) \<and>
            sorted (map e_timestamp (ec_messages g)) \<and>
            ec_chatType g = (case find (\<lambda>c. jid c = ec_jid g) ?convs of
                               None \<Rightarrow> Direct | Some c \<Rightarrow> chat_type c) \<and>
            ec_displayName g = (case find (\<lambda>c. jid c = ec_jid g) ?convs of
                                  None \<Rightarrow> None
                                | Some c \<Rightarrow> map_option (takeWhile (\<lambda>c. c \<noteq> CHR 0x00))
                                              (display_name c)))"
    by (rule exI [of _ ?groups]) (intro conjI ballI e k g)
next
  assume "(\<forall>r \<in> set (messages (dbFile s)). readable_row r) \<and>
     (\<forall>n. f_limit flt = Some n \<longrightarrow> of_int \<lfloor>n\<rfloor> = n \<and> - (2 ^ 63) < n \<and> n < 2 ^ 63)"
  then obtain rows where "queryMessages getTime flt s = Inr rows"
    using queryMessages_readable [OF assms, of flt getTime] by blast
  with assms show "\<exists>groups. exportMessages getTime flt s = Inr groups"
    by (simp add: exportMessages_of_query)
qed

theorem exportMessages_groups_witness:
  "db store3 \<and>
   queryMessages exTime no_filter store3
     = Inr [msg_row 6 ''{}'' m3, msg_row 5 ''{}'' m1, msg_row 7 ''{}'' m4] \<and>
   exportMessages exTime no_filter store3
     = Inr [\<lparr>ec_jid = ''g@g.us'', ec_chatType = Group, ec_displayName = Some ''Team'',
             ec_messages = [to_exported (msg_row 6 ''{}'' m3)]\<rparr>,
            \<lparr>ec_jid = ''a@s.whatsapp.net'', ec_chatType = Direct, ec_displayName = Some ''Ann'',
             ec_messages = [to_exported (msg_row 5 ''{}'' m1), to_exported (msg_row 7 ''{}'' m4)]\<rparr>]"
proof -
  let ?rows = "[msg_row 6 ''{}'' m3, msg_row 5 ''{}'' m1, msg_row 7 ''{}'' m4]"
  have d: "db store3" by (simp add: store3_eval)
  from exportMessages_groups [OF d, of exTime no_filter] store3_query_all
  obtain groups where e: "exportMessages exTime no_filter store3 = Inr groups"
    and k: "map ec_jid groups = rev (remdups (rev (map conversation_jid ?rows)))"
    and g: "\<forall>g \<in> set groups.
        ec_messages g
          = map (\<lambda>r. \<lparr>e_messageId = message_id r, e_senderJid = sender_jid r,
                       e_senderE164 = sender_e164 r, e_senderName = sender_name r,
                       e_body = body r, e_timestamp = timestamp r,
                       e_isFromMe = (is_from_me r \<noteq> 0),
                       e_replyToId = reply_to_id r, e_mediaPath = media_path r,
                       e_mediaType = media_type r,
                       e_location = (case (location_lat r, location_lon r) of
                                       (Some la, Some lo) \<Rightarrow> Some \<lparr>lat = la, lon = lo\<rparr>
                                     | _ \<Rightarrow> None)\<rparr>)
              (filter (\<lambda>r. conversation_jid r = ec_jid g) ?rows) \<and>
        sorted (map e_timestamp (ec_messages g)) \<and>
        ec_chatType g = (case find (\<lambda>c. jid c = ec_jid g) (conversations (dbFile store3)) of
                           None \<Rightarrow> Direct | Some c \<Rightarrow> chat_type c) \<and>
        ec_displayName g = (case find (\<lambda>c. jid c = ec_jid g) (conversations (dbFile store3)) of
                              None \<Rightarrow> None
                            | Some c \<Rightarrow> map_option (takeWhile (\<lambda>c. c \<noteq> CHR 0x00))
                                          (display_name c))"
    by blast
  from k have keys: "map ec_jid groups = [''g@g.us'', ''a@s.whatsapp.net'']"
    by (simp add: msg_row_def m1_def m3_def m4_def)
  then obtain g1 g2 where gs: "groups = [g1, g2]" and j1: "ec_jid g1 = ''g@g.us''"
    and j2: "ec_jid g2 = ''a@s.whatsapp.net''"
    by (auto simp: map_eq_Cons_conv)
  from g gs j1 have "g1 = \<lparr>ec_jid = ''g@g.us'', ec_chatType = Group, ec_displayName = Some ''Team'',
             ec_messages = [to_exported (msg_row 6 ''{}'' m3)]\<rparr>"
    by (simp add: store3_eval conv_row_def msg_row_def m1_def m3_def m4_def to_exported_def)
  moreover from g gs j2 have "g2 = \<lparr>ec_jid = ''a@s.whatsapp.net'', ec_chatType = Direct,
             ec_displayName = Some ''Ann'',
             ec_messages = [to_exported (msg_row 5 ''{}'' m1), to_exported (msg_row 7 ''{}'' m4)]\<rparr>"
    by (simp add: store3_eval conv_row_def msg_row_def m1_def m3_def m4_def to_exported_def)
  ultimately have x: "exportMessages exTime no_filter store3
     = Inr [\<lparr>ec_jid = ''g@g.us'', ec_chatType = Group, ec_displayName = Some ''Team'',
             ec_messages = [to_exported (msg_row 6 ''{}'' m3)]\<rparr>,
            \<lparr>ec_jid = ''a@s.whatsapp.net'', ec_chatType = Direct, ec_displayName = Some ''Ann'',
             ec_messages = [to_exported (msg_row 5 ''{}'' m1), to_exported (msg_row 7 ''{}'' m4)]\<rparr>]"
    using e gs by simp
  show ?thesis by (intro conjI d store3_query_all x)
qed

text \<open>
  Claim C4 as stated fails: with the limit \<open>2^63\<close> the statement is refused, and
  \<open>exportMessages\<close> on the open store \<open>store3\<close> throws instead of returning groups.
\<close>

theorem exportMessages_limit_counterexample:
  "db store3 \<and> f_limit limit_2_63 = Some 9223372036854775808 \<and>
   exportMessages exTime limit_2_63 store3 = Inl StorageFailure"
proof -
  have d: "db store3" by (simp add: store3_eval)
  have l: "f_limit limit_2_63 = Some 9223372036854775808" by (simp add: limit_2_63_def)
  have "queryMessages exTime limit_2_63 store3 = Inl StorageFailure"
    using d l by (simp add: queryMessages_def limitClause_def)
  with d have x: "exportMessages exTime limit_2_63 store3 = Inl StorageFailure"
    by (simp add: exportMessages_of_query)
  show ?thesis by (intro conjI d l x)
qed

section \<open>A single ingestion round-trips\<close>

text \<open>
  Claim C7, as amended. Take a message whose raw payload serialises, whose texts (the
  serialised payload among them) hold no NUL byte, and whose timestamp and ingestion
  time are of magnitude at most \<open>2^53 - 1\<close>. Ingested once into a freshly initialised
  empty store, it is stored, and \<open>queryMessages\<close> without a filter returns exactly one
  row. The texts, the timestamp and the optional values come back as they were given
  (an absent optional value as null, an absent location as two nulls); the from-me flag
  comes back as the integer 1 for true and 0 for false, the raw message as its
  serialisation, and \<open>created_at\<close> is the ingestion time.
\<close>

theorem ingest_once_roundtrip:
  assumes "stringify (rawMessage p) = Some raw"
    and "\<bar>p_timestamp p\<bar> < 2 ^ 53" and "\<bar>now\<bar> < 2 ^ 53"
    and "nul_free (messageId p)" and "nul_free (conversationJid p)"
    and "nul_free_opt (senderJid p)" and "nul_free_opt (senderE164 p)"
    and "nul_free_opt (senderName p)" and "nul_free (p_body p)"
    and "nul_free_opt (replyToId p)" and "nul_free_opt (mediaPath p)"
    and "nul_free_opt (mediaType p)" and "nul_free raw" and "nul_free (accountId p)"
  shows "fst (storeMessage stringify now p (initialize (new_store empty_database))) = Inr () \<and>
    queryMessages getTime no_filter
       (snd (storeMessage stringify now p (initialize (new_store empty_database))))
     = Inr [\<lparr>message_id = messageId p, conversation_jid = conversationJid p,
              sender_jid = senderJid p, sender_e164 = senderE164 p, sender_name = senderName p,
              body = p_body p, timestamp = p_timestamp p,
              is_from_me = (if isFromMe p then 1 else 0),
              reply_to_id = replyToId p, media_path = mediaPath p, media_type = mediaType p,
              location_lat = map_option lat (p_location p),
              location_lon = map_option lon (p_location p),
              raw_message = raw, account_id = accountId p, created_at = now\<rparr>]"
proof -
  let ?s = "initialize (new_store empty_database)"
  let ?s' = "snd (storeMessage stringify now p ?s)"
  have ok: "fst (storeMessage stringify now p ?s) = Inr ()"
    using assms(1) by (simp add: storeMessage_ok_iff db_fresh_store)
  have m: "messages (dbFile ?s') = [msg_row now raw p]"
    using assms(1)
    by (simp add: messages_storeMessage db_fresh_store dbFile_fresh_store empty_database_def
        insertMsg_def)
  have d: "db ?s'" by (simp add: db_storeMessage db_fresh_store)
  have "readable_row (msg_row now raw p)"
    using assms(2-) by (simp add: readable_row_def msg_row_def safe_integer_def abs_less_iff)
  then have "\<forall>r \<in> set (messages (dbFile ?s')). readable_row r" by (simp add: m)
  with d have "queryMessages getTime no_filter ?s'
      = Inr (sort_key timestamp (messages (dbFile ?s')))"
    by (rule queryMessages_no_filter_readable)
  then have q: "queryMessages getTime no_filter ?s' = Inr [msg_row now raw p]"
    by (simp add: m)
  from ok q show ?thesis by (simp add: msg_row_def)
qed

theorem ingest_once_roundtrip_witness:
  "Some (rawMessage m3) = Some ''{}'' \<and> \<bar>p_timestamp m3\<bar> < 2 ^ 53 \<and> \<bar>6 :: int\<bar> < 2 ^ 53 \<and>
   nul_free (messageId m3) \<and> nul_free (conversationJid m3) \<and>
   nul_free_opt (senderJid m3) \<and> nul_free_opt (senderE164 m3) \<and>
   nul_free_opt (senderName m3) \<and> nul_free (p_body m3) \<and>
   nul_free_opt (replyToId m3) \<and> nul_free_opt (mediaPath m3) \<and>
   nul_free_opt (mediaType m3) \<and> nul_free ''{}'' \<and> nul_free (accountId m3) \<and>
   queryMessages exTime no_filter (snd (storeMessage Some 6 m3 (initialize (new_store empty_database))))
     = Inr [\<lparr>message_id = ''msg-1'', conversation_jid = ''g@g.us'',
              sender_jid = Some ''x@s.whatsapp.net'', sender_e164 = None,
              sender_name = Some ''Xi'', body = ''Hi all'', timestamp = 500, is_from_me = 1,
              reply_to_id = None, media_path = None, media_type = None,
              location_lat = Some 52, location_lon = Some 13,
              raw_message = ''{}'', account_id = ''work'', created_at = 6\<rparr>]"
proof -
  have r: "Some (rawMessage m3) = Some ''{}''" by (simp add: m3_def)
  have t: "\<bar>p_timestamp m3\<bar> < 2 ^ 53" "\<bar>6 :: int\<bar> < 2 ^ 53" by (simp_all add: m3_def)
  have n: "nul_free (messageId m3)" "nul_free (conversationJid m3)"
    "nul_free_opt (senderJid m3)" "nul_free_opt (senderE164 m3)"
    "nul_free_opt (senderName m3)" "nul_free (p_body m3)"
    "nul_free_opt (replyToId m3)" "nul_free_opt (mediaPath m3)"
    "nul_free_opt (mediaType m3)" "nul_free ''{}''" "nul_free (accountId m3)"
    by (simp_all add: m3_def nul_free_def nul_free_opt_def)
  from ingest_once_roundtrip [of Some m3 "''{}''" 6, OF r t n, of exTime]
  have q: "queryMessages exTime no_filter
       (snd (storeMessage Some 6 m3 (initialize (new_store empty_database))))
     = Inr [\<lparr>message_id = ''msg-1'', conversation_jid = ''g@g.us'',
              sender_jid = Some ''x@s.whatsapp.net'', sender_e164 = None,
              sender_name = Some ''Xi'', body = ''Hi all'', timestamp = 500, is_from_me = 1,
              reply_to_id = None, media_path = None, media_type = None,
              location_lat = Some 52, location_lon = Some 13,
              raw_message = ''{}'', account_id = ''work'', created_at = 6\<rparr>]"
    by (simp add: m3_def)
  show ?thesis by (intro conjI r t n q)
qed

text \<open>
  Claim C7 as stated fails: the body of \<open>nul_message\<close> holds a NUL byte between \<open>a\<close> and
  \<open>b\<close>; the message is stored, and the one row that \<open>queryMessages\<close> returns has the
  body \<open>a\<close>. In that row the from-me flag, ingested as false, is the integer 0.
\<close>

theorem ingest_once_nul_counterexample:
  "p_body nul_message = [CHR ''a'', CHR 0x00, CHR ''b''] \<and>
   storeMessage Some 5 nul_message fresh = (Inr (), nul_store) \<and>
   queryMessages exTime no_filter nul_store
     = Inr [\<lparr>message_id = ''msg-1'', conversation_jid = ''a@s.whatsapp.net'',
              sender_jid = Some ''a@s.whatsapp.net'', sender_e164 = Some ''+1234567890'',
              sender_name = None, body = ''a'', timestamp = 1000, is_from_me = 0,
              reply_to_id = None, media_path = None, media_type = None,
              location_lat = None, location_lon = None,
              raw_message = ''{}'', account_id = ''default'', created_at = 5\<rparr>] \<and>
   ''a'' \<noteq> p_body nul_message"
proof -
  have b: "p_body nul_message = [CHR ''a'', CHR 0x00, CHR ''b'']"
    by (simp add: nul_message_def)
  have ok: "storeMessage Some 5 nul_message fresh = (Inr (), nul_store)"
    by (simp add: nul_store_def prod_eq_iff storeMessage_ok_iff fresh_def db_fresh_store)
  have d: "db nul_store" by (simp add: nul_store_def db_storeMessage fresh_def db_fresh_store)
  have m: "messages (dbFile nul_store) = [msg_row 5 ''{}'' nul_message]"
    by (simp add: nul_store_def messages_storeMessage fresh_def db_fresh_store
        dbFile_fresh_store empty_database_def insertMsg_def nul_message_def m1_def)
  have q: "queryMessages exTime no_filter nul_store
     = Inr [\<lparr>message_id = ''msg-1'', conversation_jid = ''a@s.whatsapp.net'',
              sender_jid = Some ''a@s.whatsapp.net'', sender_e164 = Some ''+1234567890'',
              sender_name = None, body = ''a'', timestamp = 1000, is_from_me = 0,
              reply_to_id = None, media_path = None, media_type = None,
              location_lat = None, location_lon = None,
              raw_message = ''{}'', account_id = ''default'', created_at = 5\<rparr>]"
    using d
    by (simp add: queryMessages_no_filter m readRow_def read_integer_def read_text_def
        msg_row_def nul_message_def m1_def)
  have n: "''a'' \<noteq> p_body nul_message" by (simp add: b)
  show ?thesis by (intro conjI b ok q n)
qed


section \<open>Every message has its conversation\<close>

lemma set_jid_upsertConv: "jid ` set (upsertConv e cs) = insert (jid e) (jid ` set cs)"
  by (induction cs) auto

lemma set_insertMsg: "set (insertMsg m ms) = insert m {r \<in> set ms. \<not> same_key m r}"
  by (auto simp: insertMsg_def)

lemma orphan_free_storeMessage:
  assumes "orphan_free (dbFile s)"
  shows "orphan_free (dbFile (snd (storeMessage st now p s)))"
proof (cases "db s")
  case False
  with assms show ?thesis by (simp add: storeMessage_def)
next
  case True
  then have c: "jid ` set (conversations (dbFile (snd (storeMessage st now p s))))
      = insert (conversationJid p) (jid ` set (conversations (dbFile s)))"
    by (simp add: conversations_storeMessage set_jid_upsertConv conv_row_def)
  show ?thesis
  proof (cases "st (rawMessage p)")
    case None
    with True have "messages (dbFile (snd (storeMessage st now p s))) = messages (dbFile s)"
      by (simp add: messages_storeMessage)
    with assms c show ?thesis by (auto simp: orphan_free_def)
  next
    case (Some raw)
    with True have "set (messages (dbFile (snd (storeMessage st now p s))))
        = insert (msg_row now raw p) {r \<in> set (messages (dbFile s)). \<not> same_key (msg_row now raw p) r}"
      by (simp add: messages_storeMessage set_insertMsg)
    with assms c show ?thesis by (auto simp: orphan_free_def msg_row_def)
  qed
qed

lemma orphan_free_apply_operation:
  "orphan_free (dbFile s) \<Longrightarrow> orphan_free (dbFile (apply_operation st op s))"
  by (cases op) (simp_all add: initialize_def close_def orphan_free_storeMessage)

lemma orphan_free_run: "orphan_free (dbFile s) \<Longrightarrow> orphan_free (dbFile (run st ops s))"
  unfolding run_def by (induction ops arbitrary: s) (simp_all add: orphan_free_apply_operation)

text \<open>
  Claim C5. In one call of \<open>storeMessage\<close> on an open store the conversation row is
  written first: it is there after the call even when serialising the raw message throws
  and no message row is written. A call keeps the property that every message row has a
  conversation row with its jid; hence the property holds after every sequence of
  lifecycle calls and ingestions, successful or not, on a store whose file started empty.
\<close>

theorem conversation_upserted_before_message:
  "(db s \<longrightarrow> conversationJid p \<in> jid ` set (conversations (dbFile (snd (storeMessage st now p s))))) \<and>
   (db s \<and> st (rawMessage p) = None \<longrightarrow>
      fst (storeMessage st now p s) = Inl StorageFailure \<and>
      messages (dbFile (snd (storeMessage st now p s))) = messages (dbFile s)) \<and>
   (orphan_free (dbFile s) \<longrightarrow> orphan_free (dbFile (snd (storeMessage st now p s)))) \<and>
   orphan_free (dbFile (run st ops (new_store empty_database)))"
proof -
  have 1: "db s \<longrightarrow> conversationJid p \<in> jid ` set (conversations (dbFile (snd (storeMessage st now p s))))"
    by (simp add: conversations_storeMessage set_jid_upsertConv conv_row_def)
  have 2: "db s \<and> st (rawMessage p) = None \<longrightarrow>
      fst (storeMessage st now p s) = Inl StorageFailure \<and>
      messages (dbFile (snd (storeMessage st now p s))) = messages (dbFile s)"
    by (simp add: storeMessage_def Let_def)
  have 3: "orphan_free (dbFile s) \<longrightarrow> orphan_free (dbFile (snd (storeMessage st now p s)))"
    by (simp add: orphan_free_storeMessage)
  have "orphan_free (dbFile (new_store empty_database))"
    by (simp add: orphan_free_def new_store_def empty_database_def)
  then have 4: "orphan_free (dbFile (run st ops (new_store empty_database)))"
    by (rule orphan_free_run)
  from 1 2 3 4 show ?thesis by blast
qed

theorem conversation_upserted_before_message_witness:
  "db fresh \<and> no_json (rawMessage m1) = None \<and>
   conversationJid m1 \<in> jid ` set (conversations (dbFile (snd (storeMessage no_json 5 m1 fresh)))) \<and>
   fst (storeMessage no_json 5 m1 fresh) = Inl StorageFailure \<and>
   messages (dbFile (snd (storeMessage no_json 5 m1 fresh))) = [] \<and>
   orphan_free (dbFile store2) \<and> orphan_free (dbFile store3) \<and>
   orphan_free (dbFile (run Some [Initialize, StoreMessage 5 m1, Close, StoreMessage 6 m3,
                                  Initialize, StoreMessage 7 m4] (new_store empty_database)))"
proof -
  have d: "db fresh" by (simp add: fresh_def db_fresh_store)
  have n: "no_json (rawMessage m1) = None" by (simp add: no_json_def)
  have e: "messages (dbFile fresh) = []"
    by (simp add: fresh_def dbFile_fresh_store empty_database_def)
  have o2: "orphan_free (dbFile store2)"
    by (simp add: orphan_free_def store2_eval conv_row_def msg_row_def m1_def m3_def)
  have s3: "store3 = snd (storeMessage Some 7 m4 store2)" by (simp add: store3_def)
  note a = conversation_upserted_before_message [of fresh m1 no_json 5 "[]"]
  note b = conversation_upserted_before_message [of store2 m4 Some 7
      "[Initialize, StoreMessage 5 m1, Close, StoreMessage 6 m3, Initialize, StoreMessage 7 m4]"]
  from a d n e b o2 s3 show ?thesis by simp
qed

section \<open>Participants are inserted once\<close>

lemma fold_insertParticipant:
  "\<exists>new. fold (\<lambda>pj. insertParticipant (part_row now cj pj)) ps parts = parts @ new \<and>
         distinct (map part_key new) \<and>
         (\<forall>r \<in> set new. part_key r \<notin> part_key ` set parts \<and>
                          (\<exists>pj \<in> set ps. r = part_row now cj pj)) \<and>
         (\<forall>pj \<in> set ps. (cj, pj) \<in> part_key ` set (parts @ new))"
proof (induction ps arbitrary: parts)
  case Nil
  then show ?case by simp
next
  case (Cons a ps)
  let ?row = "part_row now cj a"
  let ?parts' = "insertParticipant ?row parts"
  have key: "part_key ?row = (cj, a)" by (simp add: part_key_def part_row_def)
  from Cons.IH [of ?parts'] obtain new where
    f: "fold (\<lambda>pj. insertParticipant (part_row now cj pj)) ps ?parts' = ?parts' @ new"
    and dn: "distinct (map part_key new)"
    and nn: "\<forall>r \<in> set new. part_key r \<notin> part_key ` set ?parts' \<and>
                          (\<exists>pj \<in> set ps. r = part_row now cj pj)"
    and al: "\<forall>pj \<in> set ps. (cj, pj) \<in> part_key ` set (?parts' @ new)"
    by blast
  show ?case
  proof (cases "part_key ?row \<in> set (map part_key parts)")
    case True
    then have p: "?parts' = parts" by (simp add: insertParticipant_def)
    from True key have "(cj, a) \<in> part_key ` set (parts @ new)" by auto
    with f dn nn al p show ?thesis
      by (intro exI [of _ new]) auto
  next
    case False
    then have p: "?parts' = parts @ [?row]" by (simp add: insertParticipant_def)
    from nn p have fresh_keys: "\<forall>r \<in> set new. part_key r \<noteq> part_key ?row" by auto
    have "distinct (map part_key (?row # new))"
      using dn fresh_keys by auto
    moreover have "\<forall>r \<in> set (?row # new). part_key r \<notin> part_key ` set parts \<and>
                          (\<exists>pj \<in> set (a # ps). r = part_row now cj pj)"
      using nn p False by auto
    moreover have "\<forall>pj \<in> set (a # ps). (cj, pj) \<in> part_key ` set (parts @ ?row # new)"
      using al p key by (auto simp: image_iff)
    moreover have "fold (\<lambda>pj. insertParticipant (part_row now cj pj)) (a # ps) parts
        = parts @ ?row # new"
      using f p by simp
    ultimately show ?thesis by blast
  qed
qed

lemma participants_storeMessage:
  "participants (dbFile (snd (storeMessage st now p s))) =
     (if db s \<and> st (rawMessage p) \<noteq> None \<and> chatType p = Group
      then (case groupParticipants p of
              None \<Rightarrow> participants (dbFile s)
            | Some ps \<Rightarrow> fold (\<lambda>pj. insertParticipant (part_row now (conversationJid p) pj)) ps
                          (participants (dbFile s)))
      else participants (dbFile s))"
  by (simp add: storeMessage_def Let_def split: option.splits)

text \<open>
  Claim C6. After a successful \<open>storeMessage\<close> the participants table is the table before
  the call followed by the new rows, so no row that was there is changed, removed or
  moved. Every new row has a key that was not in the table, no two new rows share a key,
  and a new row exists only for a group message with a participant list: it holds the
  conversation jid, a jid of the list, a null phone number and the ingestion time. Every
  jid of the list has a row afterwards. A direct message, or a call without a list,
  writes no participant row.
\<close>

theorem participants_insert_or_ignore:
  assumes "storeMessage st now p s = (Inr (), s')"
  shows "\<exists>new. participants (dbFile s') = participants (dbFile s) @ new \<and>
      distinct (map part_key new) \<and>
      (\<forall>r \<in> set new.
          part_key r \<notin> part_key ` set (participants (dbFile s)) \<and>
          chatType p = Group \<and>
          (\<exists>ps pj. groupParticipants p = Some ps \<and> pj \<in> set ps \<and>
             r = \<lparr>part_conversation_jid = conversationJid p, participant_jid = pj,
                  participant_e164 = None, joined_at = now\<rparr>)) \<and>
      (\<forall>ps. chatType p = Group \<longrightarrow> groupParticipants p = Some ps \<longrightarrow>
          (\<forall>pj \<in> set ps. (conversationJid p, pj) \<in> part_key ` set (participants (dbFile s')))) \<and>
      (chatType p = Direct \<or> groupParticipants p = None \<longrightarrow> new = [])"
proof -
  from assms have ok: "fst (storeMessage st now p s) = Inr ()"
    and s': "s' = snd (storeMessage st now p s)"
    by simp_all
  from ok have o: "db s" "st (rawMessage p) \<noteq> None" by (simp_all add: storeMessage_ok_iff)
  show ?thesis
  proof (cases "chatType p = Group \<and> groupParticipants p \<noteq> None")
    case False
    with o s' have eq: "participants (dbFile s') = participants (dbFile s)"
      by (auto simp: participants_storeMessage split: option.splits)
    have C: "\<forall>ps. chatType p = Group \<longrightarrow> groupParticipants p = Some ps \<longrightarrow>
          (\<forall>pj \<in> set ps. (conversationJid p, pj) \<in> part_key ` set (participants (dbFile s')))"
      using False by simp
    show ?thesis
      by (rule exI [of _ "[]"]) (use eq C in simp)
  next
    case True
    then obtain ps where g: "chatType p = Group" and ps: "groupParticipants p = Some ps" by auto
    with o s' have eq: "participants (dbFile s')
        = fold (\<lambda>pj. insertParticipant (part_row now (conversationJid p) pj)) ps (participants (dbFile s))"
      by (simp add: participants_storeMessage)
    from fold_insertParticipant [of now "conversationJid p" ps "participants (dbFile s)"]
    obtain new where
      f: "fold (\<lambda>pj. insertParticipant (part_row now (conversationJid p) pj)) ps (participants (dbFile s))
            = participants (dbFile s) @ new"
      and dn: "distinct (map part_key new)"
      and nn: "\<forall>r \<in> set new. part_key r \<notin> part_key ` set (participants (dbFile s)) \<and>
                          (\<exists>pj \<in> set ps. r = part_row now (conversationJid p) pj)"
      and al: "\<forall>pj \<in> set ps. (conversationJid p, pj) \<in> part_key ` set (participants (dbFile s) @ new)"
      by blast
    have A: "participants (dbFile s') = participants (dbFile s) @ new" using eq f by simp
    have B: "\<forall>r \<in> set new.
          part_key r \<notin> part_key ` set (participants (dbFile s)) \<and>
          chatType p = Group \<and>
          (\<exists>ps pj. groupParticipants p = Some ps \<and> pj \<in> set ps \<and>
             r = \<lparr>part_conversation_jid = conversationJid p, participant_jid = pj,
                  participant_e164 = None, joined_at = now\<rparr>)"
    proof
      fix r assume "r \<in> set new"
      with nn obtain pj where "part_key r \<notin> part_key ` set (participants (dbFile s))"
        and "pj \<in> set ps" and "r = part_row now (conversationJid p) pj"
        by blast
      with g ps show "part_key r \<notin> part_key ` set (participants (dbFile s)) \<and>
          chatType p = Group \<and>
          (\<exists>ps pj. groupParticipants p = Some ps \<and> pj \<in> set ps \<and>
             r = \<lparr>part_conversation_jid = conversationJid p, participant_jid = pj,
                  participant_e164 = None, joined_at = now\<rparr>)"
        by (simp add: part_row_def)
    qed
    have C: "\<forall>ps. chatType p = Group \<longrightarrow> groupParticipants p = Some ps \<longrightarrow>
          (\<forall>pj \<in> set ps. (conversationJid p, pj) \<in> part_key ` set (participants (dbFile s')))"
      using al ps A by simp
    have D: "chatType p = Direct \<or> groupParticipants p = None \<longrightarrow> new = []"
      using g ps by simp
    show ?thesis
      by (rule exI [of _ new]) (intro conjI A dn B C D)
  qed
qed


lemma store4_participants:
  "participants (dbFile store4) = participants (dbFile store3) @ [part_row 8 ''g@g.us'' ''z@s.whatsapp.net'']"
  by (simp add: store4_def participants_storeMessage store3_eval m5_def m3_def
      insertParticipant_def part_key_def part_row_def)

theorem participants_insert_or_ignore_witness:
  "storeMessage Some 8 m5 store3 = (Inr (), store4) \<and>
   participants (dbFile store3)
     = [part_row 6 ''g@g.us'' ''x@s.whatsapp.net'', part_row 6 ''g@g.us'' ''y@s.whatsapp.net''] \<and>
   participants (dbFile store4)
     = [part_row 6 ''g@g.us'' ''x@s.whatsapp.net'', part_row 6 ''g@g.us'' ''y@s.whatsapp.net'',
        part_row 8 ''g@g.us'' ''z@s.whatsapp.net'']"
proof -
  have ok: "fst (storeMessage Some 8 m5 store3) = Inr ()"
    by (simp add: storeMessage_ok_iff store3_eval)
  then have c: "storeMessage Some 8 m5 store3 = (Inr (), store4)"
    by (simp add: store4_def prod_eq_iff)
  from participants_insert_or_ignore [OF c]
  obtain new where n: "participants (dbFile store4) = participants (dbFile store3) @ new"
    by blast
  with store4_participants have "new = [part_row 8 ''g@g.us'' ''z@s.whatsapp.net'']" by simp
  with n c show ?thesis by (simp add: store3_eval)
qed

section \<open>The conversation row after a sequence of ingestions\<close>

lemma map_jid_upsertConv:
  "map jid (upsertConv e cs) = (if jid e \<in> set (map jid cs) then map jid cs else map jid cs @ [jid e])"
  by (induction cs) auto

lemma distinct_upsertConv: "distinct (map jid cs) \<Longrightarrow> distinct (map jid (upsertConv e cs))"
  by (simp add: map_jid_upsertConv)

lemma find_upsertConv:
  "find (\<lambda>c. jid c = jid e) (upsertConv e cs) =
     Some (case find (\<lambda>c. jid c = jid e) cs of
             None \<Rightarrow> e
           | Some c \<Rightarrow> c\<lparr>display_name := (case display_name e of Some d \<Rightarrow> Some d | None \<Rightarrow> display_name c),
                          last_message_at := last_message_at e\<rparr>)"
  by (induction cs) auto

lemma filter_jid_distinct:
  "distinct (map jid cs) \<Longrightarrow>
   filter (\<lambda>c. jid c = j) cs = (case find (\<lambda>c. jid c = j) cs of None \<Rightarrow> [] | Some c \<Rightarrow> [c])"
proof (induction cs)
  case Nil
  then show ?case by simp
next
  case (Cons c cs)
  show ?case
  proof (cases "jid c = j")
    case True
    with Cons.prems have "j \<notin> jid ` set cs" by auto
    then have "filter (\<lambda>c. jid c = j) cs = []" by (auto simp: filter_empty_conv)
    with True show ?thesis by simp
  next
    case False
    with Cons show ?thesis by simp
  qed
qed

lemma run_snoc: "run st (ops @ [op]) s = apply_operation st op (run st ops s)"
  by (simp add: run_def)

lemma db_run_store_calls: "db (run st (store_calls calls) s) = db s"
  by (induction calls rule: rev_induct) (auto simp: store_calls_def run_snoc db_storeMessage run_def)

lemma distinct_run_store_calls:
  "distinct (map jid (conversations (dbFile s))) \<Longrightarrow>
   distinct (map jid (conversations (dbFile (run st (store_calls calls) s))))"
proof (induction calls rule: rev_induct)
  case Nil
  then show ?case by (simp add: store_calls_def run_def)
next
  case (snoc call calls)
  obtain now p where c: "call = (now, p)" by (cases call)
  from snoc show ?case
    by (simp add: c store_calls_def run_snoc conversations_storeMessage distinct_upsertConv)
qed

lemma conv_after_calls:
  assumes "db s" and "\<forall>(now, p) \<in> set calls. conversationJid p = j"
  shows "name_of j (conversations (dbFile (run st (store_calls calls) s)))
           = fold coalesce_name calls (name_of j (conversations (dbFile s))) \<and>
         (calls \<noteq> [] \<longrightarrow>
            (\<exists>c. find (\<lambda>c. jid c = j) (conversations (dbFile (run st (store_calls calls) s))) = Some c \<and>
                 last_message_at c = p_timestamp (snd (last calls))))"
  using assms(2)
proof (induction calls rule: rev_induct)
  case Nil
  then show ?case by (simp add: store_calls_def run_def)
next
  case (snoc call calls)
  obtain now p where c: "call = (now, p)" by (cases call)
  from snoc.prems c have j: "conversationJid p = j" by auto
  let ?s = "run st (store_calls calls) s"
  have op: "db ?s" using assms(1) by (simp add: db_run_store_calls)
  have step: "conversations (dbFile (run st (store_calls (calls @ [call])) s))
      = upsertConv (conv_row now p) (conversations (dbFile ?s))"
    using op by (simp add: c store_calls_def run_snoc conversations_storeMessage)
  have je: "jid (conv_row now p) = j" using j by (simp add: conv_row_def)
  from snoc have ih: "name_of j (conversations (dbFile ?s))
           = fold coalesce_name calls (name_of j (conversations (dbFile s)))"
    by simp
  have f: "find (\<lambda>c. jid c = j) (upsertConv (conv_row now p) (conversations (dbFile ?s))) =
     Some (case find (\<lambda>c. jid c = j) (conversations (dbFile ?s)) of
             None \<Rightarrow> conv_row now p
           | Some c \<Rightarrow> c\<lparr>display_name := (case display_name (conv_row now p) of Some d \<Rightarrow> Some d | None \<Rightarrow> display_name c),
                          last_message_at := last_message_at (conv_row now p)\<rparr>)"
    using find_upsertConv [of "conv_row now p" "conversations (dbFile ?s)"] je by simp
  have 1: "name_of j (conversations (dbFile (run st (store_calls (calls @ [call])) s)))
      = fold coalesce_name (calls @ [call]) (name_of j (conversations (dbFile s)))"
    unfolding step using f ih [symmetric]
    by (simp add: name_of_def coalesce_name_def c conv_row_def split: option.splits)
  have 2: "\<exists>c. find (\<lambda>c. jid c = j) (conversations (dbFile (run st (store_calls (calls @ [call])) s))) = Some c \<and>
                 last_message_at c = p_timestamp (snd (last (calls @ [call])))"
    unfolding step using f by (simp add: c conv_row_def split: option.splits)
  from 1 2 show ?case by simp
qed

lemma fold_coalesce_none:
  "\<forall>(n, q) \<in> set calls. displayName q = None \<Longrightarrow> fold coalesce_name calls init = init"
  by (induction calls arbitrary: init) (auto simp: coalesce_name_def)

lemma fold_coalesce_last:
  "displayName p = Some d \<Longrightarrow> \<forall>(n, q) \<in> set post. displayName q = None \<Longrightarrow>
   fold coalesce_name (pre @ (now, p) # post) init = Some d"
  by (simp add: fold_coalesce_none coalesce_name_def)

text \<open>
  Claim C2. Take an open store whose conversation table has one row per jid, and a
  non-empty sequence of \<open>storeMessage\<close> calls that all target conversation \<open>j\<close>. After the
  calls the table holds exactly one row for \<open>j\<close>. Its \<open>last_message_at\<close> is the timestamp
  of the last call, whatever the earlier values were. Its display name is the one
  supplied by the latest call that supplied a non-null display name; when no call
  supplied one, it is the display name the row had before the calls (null when there
  was no row).
\<close>

theorem conversation_row_after_calls:
  assumes "db s" and "distinct (map jid (conversations (dbFile s)))"
    and "calls \<noteq> []" and "\<forall>(now, p) \<in> set calls. conversationJid p = j"
  shows "\<exists>c. filter (\<lambda>c. jid c = j)
                (conversations (dbFile (run st (map (\<lambda>(now, p). StoreMessage now p) calls) s))) = [c] \<and>
      last_message_at c = p_timestamp (snd (last calls)) \<and>
      (\<forall>pre now p post d.
          calls = pre @ (now, p) # post \<longrightarrow> displayName p = Some d \<longrightarrow>
          (\<forall>(n, q) \<in> set post. displayName q = None) \<longrightarrow> display_name c = Some d) \<and>
      ((\<forall>(n, q) \<in> set calls. displayName q = None) \<longrightarrow>
          display_name c = (case find (\<lambda>c. jid c = j) (conversations (dbFile s)) of
                              None \<Rightarrow> None | Some c0 \<Rightarrow> display_name c0))"
proof -
  let ?cs = "conversations (dbFile (run st (store_calls calls) s))"
  from conv_after_calls [OF assms(1,4), of st] assms(3)
  obtain c where n: "name_of j ?cs = fold coalesce_name calls (name_of j (conversations (dbFile s)))"
    and f: "find (\<lambda>c. jid c = j) ?cs = Some c"
    and l: "last_message_at c = p_timestamp (snd (last calls))"
    by blast
  have "distinct (map jid ?cs)" using assms(2) by (rule distinct_run_store_calls)
  then have A: "filter (\<lambda>c. jid c = j) ?cs = [c]" using f by (simp add: filter_jid_distinct)
  from n f have dn: "display_name c = fold coalesce_name calls (name_of j (conversations (dbFile s)))"
    by (simp add: name_of_def)
  have B: "\<forall>pre now p post d.
          calls = pre @ (now, p) # post \<longrightarrow> displayName p = Some d \<longrightarrow>
          (\<forall>(n, q) \<in> set post. displayName q = None) \<longrightarrow> display_name c = Some d"
  proof (intro allI impI)
    fix pre now p post d
    assume "calls = pre @ (now, p) # post" and "displayName p = Some d"
      and "\<forall>(n, q) \<in> set post. displayName q = None"
    then show "display_name c = Some d"
      using dn fold_coalesce_last [of p d post pre now] by simp
  qed
  have C: "(\<forall>(n, q) \<in> set calls. displayName q = None) \<longrightarrow>
          display_name c = (case find (\<lambda>c. jid c = j) (conversations (dbFile s)) of
                              None \<Rightarrow> None | Some c0 \<Rightarrow> display_name c0)"
    using dn by (auto simp: fold_coalesce_none name_of_def)
  show ?thesis
    unfolding store_calls_def [symmetric]
    by (rule exI [of _ c]) (intro conjI A l B C)
qed

theorem conversation_row_after_calls_witness:
  "db fresh \<and> distinct (map jid (conversations (dbFile fresh))) \<and>
   [(5::int, m1), (7, m2)] \<noteq> [] \<and>
   conversationJid m1 = ''a@s.whatsapp.net'' \<and> conversationJid m2 = ''a@s.whatsapp.net'' \<and>
   filter (\<lambda>c. jid c = ''a@s.whatsapp.net'')
     (conversations (dbFile (run Some [StoreMessage 5 m1, StoreMessage 7 m2] fresh)))
     = [\<lparr>jid = ''a@s.whatsapp.net'', chat_type = Direct, display_name = Some ''Ann'',
         last_message_at = 900, conv_created_at = 5\<rparr>]"
proof -
  have d: "db fresh" by (simp add: fresh_def db_fresh_store)
  have u: "distinct (map jid (conversations (dbFile fresh)))"
    by (simp add: fresh_def dbFile_fresh_store empty_database_def)
  have n: "[(5::int, m1), (7, m2)] \<noteq> []" by simp
  have t: "\<forall>(now, p) \<in> set [(5::int, m1), (7, m2)]. conversationJid p = ''a@s.whatsapp.net''"
    by (simp add: m1_def m2_def)
  have e: "conversations (dbFile (run Some [StoreMessage 5 m1, StoreMessage 7 m2] fresh))
      = [\<lparr>jid = ''a@s.whatsapp.net'', chat_type = Direct, display_name = Some ''Ann'',
         last_message_at = 900, conv_created_at = 5\<rparr>]"
    by (simp add: run_def conversations_storeMessage db_storeMessage d fresh_def [symmetric])
       (simp add: fresh_def dbFile_fresh_store empty_database_def conv_row_def m1_def m2_def)
  from conversation_row_after_calls [OF d u n t, of Some]
  obtain c where "filter (\<lambda>c. jid c = ''a@s.whatsapp.net'')
     (conversations (dbFile (run Some (map (\<lambda>(now, p). StoreMessage now p) [(5, m1), (7, m2)]) fresh))) = [c]"
    by blast
  then have f: "filter (\<lambda>c. jid c = ''a@s.whatsapp.net'')
     (conversations (dbFile (run Some [StoreMessage 5 m1, StoreMessage 7 m2] fresh))) = [c]"
    by simp
  then have "[c] = [\<lparr>jid = ''a@s.whatsapp.net'', chat_type = Direct, display_name = Some ''Ann'',
         last_message_at = 900, conv_created_at = 5\<rparr>]"
    unfolding e by simp
  with f have "filter (\<lambda>c. jid c = ''a@s.whatsapp.net'')
     (conversations (dbFile (run Some [StoreMessage 5 m1, StoreMessage 7 m2] fresh)))
     = [\<lparr>jid = ''a@s.whatsapp.net'', chat_type = Direct, display_name = Some ''Ann'',
         last_message_at = 900, conv_created_at = 5\<rparr>]"
    by (simp only:)
  moreover have "conversationJid m1 = ''a@s.whatsapp.net''" "conversationJid m2 = ''a@s.whatsapp.net''"
    by (simp_all add: m1_def m2_def)
  ultimately show ?thesis using d u n by (intro conjI) assumption+
qed

end
